theory Spec2Isabelle
  imports Complex_Main "HOL-Library.Char_ord" "HOL-Library.List_Lexorder"
begin

section \<open>Users and roles (api/models.py)\<close>

text \<open>
  Exceptions of the Python code are values: every \<open>raise\<close> of the source, and every
  exception the framework raises on the paths modelled here, is a constructor.
\<close>

datatype error =
    AttributeError
  | ValidationError int
  | SerializerError
  | IntegrityError
  | MultipleObjectsReturned
  | Http404
  | NotAuthenticated
  | MethodNotAllowed
  | SMTPException

text \<open>
  \<open>User.UserRoles\<close> is a \<open>TextChoices\<close> class: its members are the strings stored in the
  \<open>role\<close> column, a \<open>CharField\<close>.
\<close>

definition USER :: string where
  "USER = ''user''"

definition MODERATOR :: string where
  "MODERATOR = ''moderator''"

definition ADMIN :: string where
  "ADMIN = ''admin''"

text \<open>
  The columns of \<open>User\<close> that the source reads or writes: the fields declared in
  \<open>models.py\<close> and the fields of \<open>AbstractUser\<close> used by the views and permissions.
\<close>

record user =
  pk :: nat
  username :: string
  email :: string
  first_name :: string
  last_name :: string
  bio :: string
  role :: string
  confirmation_code :: string
  is_active :: bool
  is_staff :: bool

definition moderator :: "user \<Rightarrow> bool" where
  "moderator u = (role u = MODERATOR)"

definition admin :: "user \<Rightarrow> bool" where
  "admin u = (role u = ADMIN)"

section \<open>Requests and permission classes (api/permissions.py)\<close>

text \<open>
  \<open>request.user\<close> is either a row of \<open>User\<close> or Django's \<open>AnonymousUser\<close>, which has
  \<open>is_authenticated = False\<close> and \<open>is_staff = False\<close> and no attribute \<open>admin\<close> or
  \<open>moderator\<close>.
\<close>

datatype request_user = AnonymousUser | Authenticated user

record request =
  http_method :: string
  user :: request_user

definition SAFE_METHODS :: "string list" where
  "SAFE_METHODS = [''GET'', ''HEAD'', ''OPTIONS'']"

fun is_authenticated :: "request_user \<Rightarrow> bool" where
  "is_authenticated AnonymousUser = False"
| "is_authenticated (Authenticated u) = True"

fun attr_is_staff :: "request_user \<Rightarrow> bool" where
  "attr_is_staff AnonymousUser = False"
| "attr_is_staff (Authenticated u) = is_staff u"

fun attr_admin :: "request_user \<Rightarrow> error + bool" where
  "attr_admin AnonymousUser = Inl AttributeError"
| "attr_admin (Authenticated u) = Inr (admin u)"

fun attr_moderator :: "request_user \<Rightarrow> error + bool" where
  "attr_moderator AnonymousUser = Inl AttributeError"
| "attr_moderator (Authenticated u) = Inr (moderator u)"

text \<open>
  Python's \<open>a or b\<close> on booleans: \<open>b\<close> is evaluated (and may raise) only when \<open>a\<close> is
  false.
\<close>

fun py_or :: "error + bool \<Rightarrow> error + bool \<Rightarrow> error + bool" where
  "py_or (Inl e) b = Inl e"
| "py_or (Inr True) b = Inr True"
| "py_or (Inr False) b = b"

text \<open>
  \<open>has_permission\<close> of \<open>IsAdmin\<close> and \<open>IsAdminOrReadOnly\<close> falls off the end of the
  function for an unauthenticated user: the result is Python's \<open>None\<close>, here \<open>Inr None\<close>.
\<close>

definition IsAdmin_has_permission :: "request \<Rightarrow> error + bool option" where
  "IsAdmin_has_permission r =
     (if is_authenticated (user r)
      then map_sum id Some (py_or (Inr (attr_is_staff (user r))) (attr_admin (user r)))
      else Inr None)"

definition IsAdminOrReadOnly_has_permission :: "request \<Rightarrow> error + bool option" where
  "IsAdminOrReadOnly_has_permission r =
     (if http_method r \<in> set SAFE_METHODS then Inr (Some True)
      else if is_authenticated (user r)
      then map_sum id Some (py_or (Inr (attr_is_staff (user r))) (attr_admin (user r)))
      else Inr None)"

text \<open>
  The framework denies the request when the value returned by a permission class is
  falsy (\<open>if not permission.has_permission(request, view)\<close>): \<open>None\<close> and \<open>False\<close> deny.
\<close>

fun truthy :: "bool option \<Rightarrow> bool" where
  "truthy None = False"
| "truthy (Some b) = b"

section \<open>Entities (api/models.py)\<close>

text \<open>
  \<open>validate_year\<close> reads the clock: \<open>date.today().year\<close> is the parameter \<open>today_year\<close>.
  Python integers are unbounded. Returning normally is \<open>Inr ()\<close>.
\<close>

definition validate_year :: "int \<Rightarrow> int \<Rightarrow> error + unit" where
  "validate_year today_year v =
     (if v > today_year + 10 \<or> v < - 40000 then Inl (ValidationError v) else Inr ())"

record category =
  category_pk :: nat
  category_name :: string
  category_slug :: string

record genre =
  genre_pk :: nat
  genre_name :: string
  genre_slug :: string

text \<open>
  A foreign key is the primary key of the row it points to; the nullable one
  (\<open>Title.category\<close>, \<open>null=True\<close>) is an option. The many-to-many \<open>Title.genre\<close> is
  the list of the genres' keys.
\<close>

record title =
  title_pk :: nat
  title_name :: string
  year :: int
  description :: string
  title_genre :: "nat list"
  title_category :: "nat option"

record review =
  review_pk :: nat
  review_title :: nat
  review_text :: string
  review_author :: nat
  score :: int
  review_pub_date :: nat

record comment =
  comment_pk :: nat
  comment_review :: nat
  comment_author :: nat
  comment_text :: string
  comment_pub_date :: nat

record db =
  users :: "user list"
  categories :: "category list"
  genres :: "genre list"
  titles :: "title list"
  reviews :: "review list"
  comments :: "comment list"

subsection \<open>Deletion and the declared \<open>on_delete\<close> behaviours\<close>

datatype on_delete = CASCADE | SET_NULL

definition Title_category_on_delete :: on_delete where
  "Title_category_on_delete = SET_NULL"

definition Review_title_on_delete :: on_delete where
  "Review_title_on_delete = CASCADE"

definition Review_author_on_delete :: on_delete where
  "Review_author_on_delete = CASCADE"

definition Comment_review_on_delete :: on_delete where
  "Comment_review_on_delete = CASCADE"

definition Comment_author_on_delete :: on_delete where
  "Comment_author_on_delete = CASCADE"

text \<open>
  Django's deletion collector, for the rows of one referencing table when the rows with
  keys \<open>ks\<close> of the referenced table are deleted: under \<open>CASCADE\<close> the referencing rows
  are collected for deletion too, under \<open>SET_NULL\<close> their foreign key is cleared.
\<close>

definition refers :: "('row \<Rightarrow> nat option) \<Rightarrow> nat list \<Rightarrow> 'row \<Rightarrow> bool" where
  "refers fk ks r = (case fk r of None \<Rightarrow> False | Some k \<Rightarrow> k \<in> set ks)"

definition cascaded :: "on_delete \<Rightarrow> ('row \<Rightarrow> nat option) \<Rightarrow> nat list \<Rightarrow> 'row list \<Rightarrow> 'row list" where
  "cascaded od fk ks rows =
     (case od of CASCADE \<Rightarrow> filter (refers fk ks) rows | SET_NULL \<Rightarrow> [])"

definition nulled ::
  "on_delete \<Rightarrow> ('row \<Rightarrow> nat option) \<Rightarrow> ('row \<Rightarrow> 'row) \<Rightarrow> nat list \<Rightarrow> 'row list \<Rightarrow> 'row list" where
  "nulled od fk set_null ks rows =
     (case od of
        CASCADE \<Rightarrow> rows
      | SET_NULL \<Rightarrow> map (\<lambda>r. if refers fk ks r then set_null r else r) rows)"

definition delete_comments :: "nat list \<Rightarrow> db \<Rightarrow> db" where
  "delete_comments ks d = d\<lparr>comments := filter (\<lambda>c. comment_pk c \<notin> set ks) (comments d)\<rparr>"

definition delete_reviews :: "nat list \<Rightarrow> db \<Rightarrow> db" where
  "delete_reviews ks d =
     (let fk = Some \<circ> comment_review;
          d1 = delete_comments
                 (map comment_pk (cascaded Comment_review_on_delete fk ks (comments d))) d;
          d2 = d1\<lparr>comments := nulled Comment_review_on_delete fk id ks (comments d1)\<rparr>
      in d2\<lparr>reviews := filter (\<lambda>r. review_pk r \<notin> set ks) (reviews d2)\<rparr>)"

definition delete_titles :: "nat list \<Rightarrow> db \<Rightarrow> db" where
  "delete_titles ks d =
     (let fk = Some \<circ> review_title;
          d1 = delete_reviews
                 (map review_pk (cascaded Review_title_on_delete fk ks (reviews d))) d;
          d2 = d1\<lparr>reviews := nulled Review_title_on_delete fk id ks (reviews d1)\<rparr>
      in d2\<lparr>titles := filter (\<lambda>t. title_pk t \<notin> set ks) (titles d2)\<rparr>)"

definition delete_categories :: "nat list \<Rightarrow> db \<Rightarrow> db" where
  "delete_categories ks d =
     (let d1 = delete_titles
                 (map title_pk (cascaded Title_category_on_delete title_category ks (titles d))) d;
          d2 = d1\<lparr>titles := nulled Title_category_on_delete title_category
                                (\<lambda>t. t\<lparr>title_category := None\<rparr>) ks (titles d1)\<rparr>
      in d2\<lparr>categories := filter (\<lambda>c. category_pk c \<notin> set ks) (categories d2)\<rparr>)"

definition delete_users :: "nat list \<Rightarrow> db \<Rightarrow> db" where
  "delete_users ks d =
     (let rfk = Some \<circ> review_author; cfk = Some \<circ> comment_author;
          d1 = delete_reviews
                 (map review_pk (cascaded Review_author_on_delete rfk ks (reviews d))) d;
          d2 = delete_comments
                 (map comment_pk (cascaded Comment_author_on_delete cfk ks (comments d1))) d1;
          d3 = d2\<lparr>reviews := nulled Review_author_on_delete rfk id ks (reviews d2),
                   comments := nulled Comment_author_on_delete cfk id ks (comments d2)\<rparr>
      in d3\<lparr>users := filter (\<lambda>u. pk u \<notin> set ks) (users d3)\<rparr>)"

definition delete_category :: "nat \<Rightarrow> db \<Rightarrow> db" where
  "delete_category k d = delete_categories [k] d"

definition delete_title :: "nat \<Rightarrow> db \<Rightarrow> db" where
  "delete_title k d = delete_titles [k] d"

section \<open>Object-level permission (api/permissions.py)\<close>

text \<open>
  \<open>IsAuthorOrStaffOrReadOnly\<close> is attached to the review and the comment view sets, so
  \<open>obj\<close> is a review or a comment. \<open>obj.author == request.user\<close> is Django's model
  equality: the same primary key; an \<open>AnonymousUser\<close> is equal to no row.
\<close>

datatype obj = ReviewObj review | CommentObj comment

fun obj_author :: "obj \<Rightarrow> nat" where
  "obj_author (ReviewObj r) = review_author r"
| "obj_author (CommentObj c) = comment_author c"

fun author_eq :: "nat \<Rightarrow> request_user \<Rightarrow> bool" where
  "author_eq a AnonymousUser = False"
| "author_eq a (Authenticated u) = (a = pk u)"

definition IsAuthorOrStaffOrReadOnly_has_object_permission :: "request \<Rightarrow> obj \<Rightarrow> error + bool" where
  "IsAuthorOrStaffOrReadOnly_has_object_permission r ob =
     py_or (Inr (http_method r \<in> set SAFE_METHODS))
       (py_or (Inr (author_eq (obj_author ob) (user r)))
          (py_or (attr_admin (user r)) (attr_moderator (user r))))"

text \<open>
  The view sets list \<open>IsAuthenticatedOrReadOnly\<close> (of the framework) before it: the
  framework checks the class-level permissions first and resolves and checks the object
  only when they allow.
\<close>

definition IsAuthenticatedOrReadOnly_has_permission :: "request \<Rightarrow> bool" where
  "IsAuthenticatedOrReadOnly_has_permission r =
     (http_method r \<in> set SAFE_METHODS \<or> is_authenticated (user r))"

definition check_object_permissions :: "request \<Rightarrow> obj \<Rightarrow> error + bool" where
  "check_object_permissions r ob =
     (if IsAuthenticatedOrReadOnly_has_permission r
      then IsAuthorOrStaffOrReadOnly_has_object_permission r ob
      else Inr False)"

section \<open>Views (api/views.py)\<close>

subsection \<open>The rating annotation of \<open>TitleViewSet.queryset\<close>\<close>

text \<open>
  The rating is a floating-point number: \<open>Avg\<close> over an \<open>IntegerField\<close> has a
  \<open>FloatField\<close> as its output, an IEEE 754 binary64 value. A finite double is the
  rational number it stands for.
\<close>

datatype double = Finite rat | PlusInfinity | MinusInfinity

text \<open>
  The number of binary digits of a positive integer, and with it the integer part of
  the binary logarithm of \<open>a / b\<close> for positive \<open>a\<close> and \<open>b\<close>: the \<open>e\<close> with
  \<open>2 ^ e \<le> a / b < 2 ^ (e + 1)\<close>.
\<close>

function bit_length :: "int \<Rightarrow> nat" where
  "bit_length n = (if n \<le> 0 then 0 else Suc (bit_length (n div 2)))"
  by auto
termination
  by (relation "measure nat") auto

declare bit_length.simps [simp del]

definition floor_log2 :: "int \<Rightarrow> int \<Rightarrow> int" where
  "floor_log2 a b =
     (let k = int (bit_length a) - int (bit_length b)
      in if (if 0 \<le> k then b * 2 ^ nat k \<le> a else b \<le> a * 2 ^ nat (- k)) then k else k - 1)"

text \<open>The integer nearest to \<open>n / d\<close> for \<open>d > 0\<close>, a tie going to the even one.\<close>

definition round_half_even :: "int \<Rightarrow> int \<Rightarrow> int" where
  "round_half_even n d =
     (let q = n div d; r = n mod d
      in if 2 * r < d then q else if d < 2 * r then q + 1 else if even q then q else q + 1)"

text \<open>
  The quotient \<open>a / b\<close> of two integers, \<open>b > 0\<close>, as a double: the exact quotient
  rounded once to the nearest binary64 value, ties to even. The significand has 53
  bits, so the quotient is rounded to a multiple of \<open>2 ^ p\<close> where \<open>p\<close> is
  \<open>floor_log2 |a| b - 52\<close>, and to a multiple of \<open>2 ^ (-1074)\<close> in the subnormal range; a
  result of magnitude \<open>2 ^ 1024\<close> or more is an infinity.
\<close>

definition binary64_quotient :: "int \<Rightarrow> int \<Rightarrow> double" where
  "binary64_quotient a b =
     (if a = 0 then Finite 0
      else
        (let p = max (floor_log2 \<bar>a\<bar> b - 52) (- 1074);
             n = (if 0 \<le> p then round_half_even \<bar>a\<bar> (b * 2 ^ nat p)
                  else round_half_even (\<bar>a\<bar> * 2 ^ nat (- p)) b);
             x = of_int n * 2 powi p
         in if 2 ^ 1024 \<le> x then (if 0 < a then PlusInfinity else MinusInfinity)
            else Finite (of_int (sgn a) * x)))"

text \<open>
  \<open>Title.objects.annotate(rating=Avg('reviews__score')).order_by('name')\<close> is a left
  outer join of the titles with their reviews, grouped by title: a title without a
  review is joined with one row whose score is \<open>NULL\<close>. The aggregate \<open>Avg\<close> skips
  \<open>NULL\<close>s and is \<open>NULL\<close> when no value is left; otherwise it is the sum of the values
  divided by their number, as a double.
\<close>

definition left_join_scores :: "title \<Rightarrow> review list \<Rightarrow> int option list" where
  "left_join_scores t rs =
     (case filter (\<lambda>r. review_title r = title_pk t) rs of
        [] \<Rightarrow> [None]
      | m # ms \<Rightarrow> map (\<lambda>r. Some (score r)) (m # ms))"

definition Avg :: "int option list \<Rightarrow> double option" where
  "Avg vs =
     (case List.map_filter id vs of
        [] \<Rightarrow> None
      | x # xs \<Rightarrow> Some (binary64_quotient (sum_list (x # xs)) (int (length (x # xs)))))"

definition annotate_rating :: "db \<Rightarrow> title \<Rightarrow> title \<times> double option" where
  "annotate_rating d t = (t, Avg (left_join_scores t (reviews d)))"

definition TitleViewSet_queryset :: "db \<Rightarrow> (title \<times> double option) list" where
  "TitleViewSet_queryset d =
     sort_key (\<lambda>row. title_name (fst row)) (map (annotate_rating d) (titles d))"

subsection \<open>\<open>ObtainingConfirmationCodeView.post\<close>\<close>

text \<open>
  \<open>User.objects.create(email, username, confirmation_code, is_active=False)\<close>: the other
  columns take their defaults, the key is fresh, and the unique constraints on \<open>email\<close>
  (declared in \<open>models.py\<close>) and on \<open>username\<close> (of \<open>AbstractUser\<close>) raise
  \<open>IntegrityError\<close>.
\<close>

definition fresh_pk :: "db \<Rightarrow> nat" where
  "fresh_pk d = Suc (fold max (map pk (users d)) 0)"

definition User_create :: "db \<Rightarrow> string \<Rightarrow> string \<Rightarrow> string \<Rightarrow> bool \<Rightarrow> error + user \<times> db" where
  "User_create d em un code active =
     (if list_ex (\<lambda>u. email u = em \<or> username u = un) (users d) then Inl IntegrityError
      else
        (let u = \<lparr>pk = fresh_pk d, username = un, email = em, first_name = [], last_name = [],
                  bio = [], role = USER, confirmation_code = code, is_active = active,
                  is_staff = False\<rparr>
         in Inr (u, d\<lparr>users := users d @ [u]\<rparr>)))"

text \<open>
  \<open>QuerySet.get(**kwargs)\<close> on the four columns the view passes; no row is
  \<open>DoesNotExist\<close>, here \<open>Inr None\<close>.
\<close>

definition User_get4 :: "db \<Rightarrow> string \<Rightarrow> string \<Rightarrow> string \<Rightarrow> bool \<Rightarrow> error + user option" where
  "User_get4 d em un code active =
     (case filter (\<lambda>u. email u = em \<and> username u = un \<and> confirmation_code u = code
                        \<and> is_active u = active) (users d) of
        [] \<Rightarrow> Inr None
      | [u] \<Rightarrow> Inr (Some u)
      | u # v # vs \<Rightarrow> Inl MultipleObjectsReturned)"

text \<open>
  \<open>QuerySet.get_or_create(**kwargs)\<close> without \<open>defaults\<close>: every keyword is part of the
  lookup. When no row matches, the row is created; when the creation raises
  \<open>IntegrityError\<close> the lookup is tried once more and, failing again, the
  \<open>IntegrityError\<close> is raised again.
\<close>

definition User_get_or_create ::
  "db \<Rightarrow> string \<Rightarrow> string \<Rightarrow> string \<Rightarrow> bool \<Rightarrow> (error + user \<times> bool) \<times> db" where
  "User_get_or_create d em un code active =
     (case User_get4 d em un code active of
        Inl e \<Rightarrow> (Inl e, d)
      | Inr (Some u) \<Rightarrow> (Inr (u, False), d)
      | Inr None \<Rightarrow>
          (case User_create d em un code active of
             Inr (u, d') \<Rightarrow> (Inr (u, True), d')
           | Inl e \<Rightarrow>
               (case User_get4 d em un code active of
                  Inr (Some u) \<Rightarrow> (Inr (u, False), d)
                | Inr None \<Rightarrow> (Inl e, d)
                | Inl e' \<Rightarrow> (Inl e', d))))"

text \<open>
  The view. \<open>ObtainingConfirmationCodeSerializer\<close> lives in \<open>api/serializers.py\<close>,
  which is not available: its validation of the submitted email is the parameter \<open>is_valid\<close>. \<open>uuid.uuid4()\<close> is
  the parameter \<open>code\<close>, and whether \<open>send_mail\<close> succeeds (\<open>fail_silently=False\<close>) the
  parameter \<open>mail_ok\<close>. A successful call returns the mail it has sent: the address and
  the code in its body.
\<close>

definition ObtainingConfirmationCodeView_post ::
  "(string \<Rightarrow> bool) \<Rightarrow> string \<Rightarrow> bool \<Rightarrow> db \<Rightarrow> string \<Rightarrow> (error + string \<times> string) \<times> db" where
  "ObtainingConfirmationCodeView_post is_valid code mail_ok d em =
     (if \<not> is_valid em then (Inl SerializerError, d)
      else
        (case User_get_or_create d em em code False of
           (Inl e, d') \<Rightarrow> (Inl e, d')
         | (Inr _, d') \<Rightarrow>
             (if mail_ok then (Inr (em, code), d') else (Inl SMTPException, d'))))"

subsection \<open>\<open>TokenView.post\<close>\<close>

text \<open>
  \<open>Model.save()\<close> of a row that has a key: the row with that key is overwritten with
  the object's columns (and inserted when there is none); the unique constraints
  raise \<open>IntegrityError\<close>.
\<close>

definition User_save :: "user \<Rightarrow> db \<Rightarrow> error + db" where
  "User_save u d =
     (if list_ex (\<lambda>x. pk x \<noteq> pk u \<and> (email x = email u \<or> username x = username u)) (users d)
      then Inl IntegrityError
      else if list_ex (\<lambda>x. pk x = pk u) (users d)
      then Inr (d\<lparr>users := map (\<lambda>x. if pk x = pk u then u else x) (users d)\<rparr>)
      else Inr (d\<lparr>users := users d @ [u]\<rparr>))"

text \<open>
  \<open>RefreshToken.for_user(user)\<close> is a signed refresh token carrying the user's key;
  its \<open>access_token\<close> is the short-lived access token for the same key.
\<close>

datatype token = RefreshToken nat | AccessToken nat

definition for_user :: "user \<Rightarrow> token" where
  "for_user u = RefreshToken (pk u)"

fun access_token :: "token \<Rightarrow> token" where
  "access_token (RefreshToken k) = AccessToken k"
| "access_token (AccessToken k) = AccessToken k"

text \<open>
  Modelled from the spec: \<open>TokenSerializer\<close> of \<open>api/serializers.py\<close>, which is not
  available. The spec (4.4): the exchange is triggered by presenting
  (email, confirmation_code); "if the stored code matches" it goes on, and a "mismatch
  is rejected".
\<close>

definition TokenSerializer_is_valid :: "db \<Rightarrow> string \<Rightarrow> string \<Rightarrow> bool" where
  "TokenSerializer_is_valid d em code =
     list_ex (\<lambda>u. email u = em \<and> confirmation_code u = code) (users d)"

text \<open>
  The view: the serializer's validation (the parameter \<open>is_valid\<close>), then
  \<open>get_object_or_404(User, email=...)\<close>, \<open>user.save()\<close>, and the response, a dictionary
  with the one key \<open>token\<close>.
\<close>

definition get_object_or_404_email :: "db \<Rightarrow> string \<Rightarrow> error + user" where
  "get_object_or_404_email d em =
     (case filter (\<lambda>u. email u = em) (users d) of
        [] \<Rightarrow> Inl Http404
      | [u] \<Rightarrow> Inr u
      | u # v # vs \<Rightarrow> Inl MultipleObjectsReturned)"

definition TokenView_post ::
  "(db \<Rightarrow> string \<Rightarrow> string \<Rightarrow> bool) \<Rightarrow> db \<Rightarrow> string \<Rightarrow> string
     \<Rightarrow> (error + (string \<times> token) list) \<times> db" where
  "TokenView_post is_valid d em code =
     (if \<not> is_valid d em code then (Inl SerializerError, d)
      else
        (case get_object_or_404_email d em of
           Inl e \<Rightarrow> (Inl e, d)
         | Inr u \<Rightarrow>
             (case User_save u d of
                Inl e \<Rightarrow> (Inl e, d)
              | Inr d' \<Rightarrow> (Inr [(''token'', access_token (for_user u))], d'))))"

subsection \<open>\<open>UserViewSet.me\<close>\<close>

text \<open>
  \<open>validated_data\<close> of the user serializer: a dictionary from field names to values, a
  key being absent (\<open>None\<close>) when the partial payload does not give it. \<open>UserSerializer\<close>
  lives in \<open>api/serializers.py\<close>, which is not available: its validation, from the submitted payload to
  \<open>validated_data\<close> or a validation error (\<open>None\<close>), is the parameter \<open>run_validation\<close>.
\<close>

record user_data =
  vd_username :: "string option"
  vd_email :: "string option"
  vd_first_name :: "string option"
  vd_last_name :: "string option"
  vd_bio :: "string option"
  vd_role :: "string option"

text \<open>
  \<open>serializer.save(email=instance.email, role=instance.role)\<close>: the keyword arguments
  are evaluated on the instance before anything is written and override the entries of
  \<open>validated_data\<close>; \<open>ModelSerializer.update\<close> then sets every entry on the instance
  and saves it.
\<close>

definition save_kwargs :: "user \<Rightarrow> user_data \<Rightarrow> user_data" where
  "save_kwargs instance vd = vd\<lparr>vd_email := Some (email instance), vd_role := Some (role instance)\<rparr>"

definition setattrs :: "user \<Rightarrow> user_data \<Rightarrow> user" where
  "setattrs instance vd =
     instance\<lparr>username := case_option (username instance) id (vd_username vd),
              email := case_option (email instance) id (vd_email vd),
              first_name := case_option (first_name instance) id (vd_first_name vd),
              last_name := case_option (last_name instance) id (vd_last_name vd),
              bio := case_option (bio instance) id (vd_bio vd),
              role := case_option (role instance) id (vd_role vd)\<rparr>"

text \<open>
  The route of the action requires \<open>IsAuthenticated\<close>, whatever the method: the
  framework authenticates and checks the permission first. It then answers \<open>OPTIONS\<close>
  itself, with the metadata of the view, runs the body of \<open>me\<close> for \<open>GET\<close> (and with it
  \<open>HEAD\<close>) and \<open>PATCH\<close>, and refuses every other method. The body answers with the
  serialised instance.
\<close>

datatype response = Serialized user | Metadata

definition UserViewSet_me ::
  "('payload \<Rightarrow> user_data option) \<Rightarrow> request \<Rightarrow> 'payload \<Rightarrow> db \<Rightarrow> (error + response) \<times> db" where
  "UserViewSet_me run_validation r payload d =
     (case user r of
        AnonymousUser \<Rightarrow> (Inl NotAuthenticated, d)
      | Authenticated instance \<Rightarrow>
          (if http_method r = ''OPTIONS'' then (Inr Metadata, d)
           else if http_method r \<notin> set [''GET'', ''HEAD'', ''PATCH'']
           then (Inl MethodNotAllowed, d)
           else if http_method r = ''PATCH'' then
             (case run_validation payload of
                None \<Rightarrow> (Inl SerializerError, d)
              | Some vd \<Rightarrow>
                  (let instance' = setattrs instance (save_kwargs instance vd) in
                   case User_save instance' d of
                     Inl e \<Rightarrow> (Inl e, d)
                   | Inr d' \<Rightarrow> (Inr (Serialized instance'), d')))
           else (Inr (Serialized instance), d)))"

section \<open>Concrete rows\<close>

text \<open>
  Rows used to evaluate the definitions: a self-registered user who has not exchanged a
  code yet, an operator account with the staff flag and the default role, a user with
  the admin role, and a store with a category, two titles (one of them without a review),
  two reviews of the first title with the scores 8 and 10, and a comment on the second
  review.
\<close>

definition example_author :: user where
  "example_author =
     \<lparr>pk = 1, username = ''ann@example.com'', email = ''ann@example.com'', first_name = [],
      last_name = [], bio = [], role = USER, confirmation_code = ''old-code'',
      is_active = False, is_staff = False\<rparr>"

definition example_staff :: user where
  "example_staff =
     \<lparr>pk = 2, username = ''root'', email = ''root@example.com'', first_name = [],
      last_name = [], bio = [], role = USER, confirmation_code = [],
      is_active = True, is_staff = True\<rparr>"

definition example_admin :: user where
  "example_admin =
     \<lparr>pk = 3, username = ''boss'', email = ''boss@example.com'', first_name = [],
      last_name = [], bio = [], role = ADMIN, confirmation_code = [],
      is_active = True, is_staff = False\<rparr>"

definition example_review :: review where
  "example_review =
     \<lparr>review_pk = 1, review_title = 1, review_text = ''fine'', review_author = 1, score = 8,
      review_pub_date = 0\<rparr>"

definition example_category :: category where
  "example_category = \<lparr>category_pk = 1, category_name = ''Film'', category_slug = ''film''\<rparr>"

definition example_title :: title where
  "example_title =
     \<lparr>title_pk = 1, title_name = ''Solaris'', year = 1972, description = [], title_genre = [],
      title_category = Some 1\<rparr>"

definition unreviewed_title :: title where
  "unreviewed_title =
     \<lparr>title_pk = 2, title_name = ''Alien'', year = 1979, description = [], title_genre = [],
      title_category = None\<rparr>"

definition second_review :: review where
  "second_review =
     \<lparr>review_pk = 2, review_title = 1, review_text = ''great'', review_author = 3, score = 10,
      review_pub_date = 1\<rparr>"

definition example_comment :: comment where
  "example_comment =
     \<lparr>comment_pk = 1, comment_review = 2, comment_author = 1, comment_text = ''agreed'',
      comment_pub_date = 2\<rparr>"

definition example_db :: db where
  "example_db =
     \<lparr>users = [example_author, example_staff, example_admin],
      categories = [example_category],
      genres = [],
      titles = [example_title, unreviewed_title],
      reviews = [example_review, second_review],
      comments = [example_comment]\<rparr>"

text \<open>A store with one title and three reviews of it, with the scores 1, 2 and 2.\<close>

definition thirds_db :: db where
  "thirds_db =
     \<lparr>users = [example_author, example_staff, example_admin],
      categories = [example_category],
      genres = [],
      titles = [example_title],
      reviews = [example_review\<lparr>score := 1\<rparr>,
                 second_review\<lparr>score := 2\<rparr>,
                 second_review\<lparr>review_pk := 3, review_author := 2, score := 2\<rparr>],
      comments = []\<rparr>"

text \<open>
  A partial payload for \<open>/users/me\<close> that gives a biography and tries to change the
  email and the role.
\<close>

definition hostile_patch :: user_data where
  "hostile_patch =
     \<lparr>vd_username = None, vd_email = Some ''eve@example.com'', vd_first_name = None,
      vd_last_name = None, vd_bio = Some ''hello'', vd_role = Some ADMIN\<rparr>"

section \<open>Roles and capabilities\<close>

text \<open>
  Claim C2, as amended. The capability query \<open>User.moderator\<close> depends on the stored role
  only and is true exactly for the role \<open>moderator\<close>: it is false for the role \<open>admin\<close>
  and for the role \<open>user\<close>, and two users with the same role get the same answer.
\<close>

theorem moderator_iff_role:
  "(moderator u \<longleftrightarrow> role u = ''moderator'')
   \<and> (role u = ''admin'' \<or> role u = ''user'' \<longrightarrow> \<not> moderator u)
   \<and> (role u = role v \<longrightarrow> moderator u = moderator v)"
  by (auto simp add: moderator_def MODERATOR_def)

theorem moderator_iff_role_witness:
  "role example_admin = ''admin'' \<and> \<not> moderator example_admin"
  using moderator_iff_role [of example_admin example_admin]
  by (simp add: example_admin_def ADMIN_def)

text \<open>
  Claim C2, as stated, fails: the query is false for a user whose role is \<open>admin\<close>.
\<close>

theorem moderator_false_for_admin_role:
  "role example_admin = ADMIN \<and> moderator example_admin = False"
  by (simp add: example_admin_def moderator_def ADMIN_def MODERATOR_def)

text \<open>
  Claim C10. For every user, the properties \<open>moderator\<close> and \<open>admin\<close> are never both
  true: both compare the one \<open>role\<close> column, against two different constants.
\<close>

theorem moderator_admin_exclusive: "\<not> (moderator u \<and> admin u)"
  by (simp add: moderator_def admin_def MODERATOR_def ADMIN_def)

section \<open>Class-level permissions\<close>

text \<open>
  Claim C9. For an authenticated subject and a method that is not safe,
  \<open>IsAdminOrReadOnly\<close> and \<open>IsAdmin\<close> return the same value: true exactly when the subject
  has the staff flag or the admin role. Whenever the two classes return different
  values, the method is safe or the subject is not authenticated.
\<close>

theorem IsAdminOrReadOnly_agrees_with_IsAdmin:
  "(m \<notin> set SAFE_METHODS \<longrightarrow>
      IsAdminOrReadOnly_has_permission \<lparr>http_method = m, user = Authenticated u\<rparr>
        = Inr (Some (is_staff u \<or> admin u))
      \<and> IsAdmin_has_permission \<lparr>http_method = m, user = Authenticated u\<rparr>
        = Inr (Some (is_staff u \<or> admin u)))
   \<and> (IsAdminOrReadOnly_has_permission r \<noteq> IsAdmin_has_permission r \<longrightarrow>
        http_method r \<in> set SAFE_METHODS \<or> \<not> is_authenticated (user r))"
  by (cases "is_staff u")
     (auto simp add: IsAdminOrReadOnly_has_permission_def IsAdmin_has_permission_def)

theorem IsAdminOrReadOnly_agrees_with_IsAdmin_witness:
  "''DELETE'' \<notin> set SAFE_METHODS
   \<and> IsAdminOrReadOnly_has_permission \<lparr>http_method = ''DELETE'', user = Authenticated example_admin\<rparr>
       = Inr (Some True)
   \<and> IsAdmin_has_permission \<lparr>http_method = ''DELETE'', user = Authenticated example_admin\<rparr>
       = Inr (Some True)
   \<and> IsAdminOrReadOnly_has_permission \<lparr>http_method = ''GET'', user = AnonymousUser\<rparr>
       \<noteq> IsAdmin_has_permission \<lparr>http_method = ''GET'', user = AnonymousUser\<rparr>
   \<and> ''GET'' \<in> set SAFE_METHODS"
proof -
  have unsafe: "''DELETE'' \<notin> set SAFE_METHODS"
    by (simp add: SAFE_METHODS_def)
  have adm: "admin example_admin"
    by (simp add: admin_def example_admin_def)
  have differ: "IsAdminOrReadOnly_has_permission \<lparr>http_method = ''GET'', user = AnonymousUser\<rparr>
       \<noteq> IsAdmin_has_permission \<lparr>http_method = ''GET'', user = AnonymousUser\<rparr>"
    by (simp add: IsAdminOrReadOnly_has_permission_def IsAdmin_has_permission_def SAFE_METHODS_def)
  have safe: "''GET'' \<in> set SAFE_METHODS"
    by (simp add: SAFE_METHODS_def)
  from IsAdminOrReadOnly_agrees_with_IsAdmin
         [of "''DELETE''" example_admin "\<lparr>http_method = ''GET'', user = AnonymousUser\<rparr>"]
       unsafe adm differ safe
  show ?thesis by simp
qed

section \<open>The object-level permission\<close>

text \<open>
  What \<open>IsAuthorOrStaffOrReadOnly\<close> decides: for an authenticated subject, a safe method,
  the author's key, the admin role or the moderator role; the staff flag is not read.
  For an anonymous subject and a method that is not safe the class itself raises
  \<open>AttributeError\<close>, and the view sets deny before it is asked.
\<close>

lemma has_object_permission_authenticated:
  "IsAuthorOrStaffOrReadOnly_has_object_permission \<lparr>http_method = m, user = Authenticated u\<rparr> ob =
     Inr (m \<in> set SAFE_METHODS \<or> obj_author ob = pk u \<or> admin u \<or> moderator u)"
  by (cases "m \<in> set SAFE_METHODS"; cases "obj_author ob = pk u"; cases "admin u";
      cases "moderator u")
     (simp_all add: IsAuthorOrStaffOrReadOnly_has_object_permission_def)

lemma has_object_permission_safe:
  "m \<in> set SAFE_METHODS \<Longrightarrow>
     IsAuthorOrStaffOrReadOnly_has_object_permission \<lparr>http_method = m, user = su\<rparr> ob = Inr True"
  by (simp add: IsAuthorOrStaffOrReadOnly_has_object_permission_def)

lemma has_object_permission_anonymous:
  "m \<notin> set SAFE_METHODS \<Longrightarrow>
     IsAuthorOrStaffOrReadOnly_has_object_permission \<lparr>http_method = m, user = AnonymousUser\<rparr> ob
       = Inl AttributeError \<and>
     check_object_permissions \<lparr>http_method = m, user = AnonymousUser\<rparr> ob = Inr False"
  by (simp add: IsAuthorOrStaffOrReadOnly_has_object_permission_def check_object_permissions_def
      IsAuthenticatedOrReadOnly_has_permission_def)

text \<open>
  Claim C1, at the input where the code departs from it. An operator account with the
  staff flag and the default role, which \<open>IsAdmin\<close> allows, asks to \<open>PATCH\<close> a review
  written by another user: the object-level permission denies, alone and behind
  \<open>IsAuthenticatedOrReadOnly\<close>.
\<close>

theorem staff_flag_denied_on_object:
  "IsAuthorOrStaffOrReadOnly_has_object_permission
     \<lparr>http_method = ''PATCH'', user = Authenticated example_staff\<rparr> (ReviewObj example_review)
     = Inr False
   \<and> check_object_permissions
     \<lparr>http_method = ''PATCH'', user = Authenticated example_staff\<rparr> (ReviewObj example_review)
     = Inr False
   \<and> IsAdmin_has_permission \<lparr>http_method = ''PATCH'', user = Authenticated example_staff\<rparr>
     = Inr (Some True)"
  by (simp add: IsAuthorOrStaffOrReadOnly_has_object_permission_def check_object_permissions_def
      IsAuthenticatedOrReadOnly_has_permission_def IsAdmin_has_permission_def SAFE_METHODS_def
      example_staff_def example_review_def admin_def moderator_def USER_def ADMIN_def MODERATOR_def)

section \<open>The year of a title\<close>

text \<open>
  Claim C6. For every integer \<open>y\<close>, \<open>validate_year\<close> returns normally exactly when
  \<open>-40000 \<le> y \<le> today_year + 10\<close>, and raises the validation error for \<open>y\<close> exactly
  when \<open>y\<close> is outside that range. The validator is a function of the value and the
  clock alone: it reads and writes no row.
\<close>

theorem validate_year_accepts_iff:
  "(validate_year today_year y = Inr ()) = (- 40000 \<le> y \<and> y \<le> today_year + 10)
   \<and> (validate_year today_year y = Inl (ValidationError y))
       = (y < - 40000 \<or> today_year + 10 < y)"
  by (auto simp add: validate_year_def)

section \<open>Deleting categories and titles\<close>

lemmas on_delete_defs =
  Title_category_on_delete_def Review_title_on_delete_def Comment_review_on_delete_def
  cascaded_def nulled_def refers_def

lemma titles_delete_category:
  "titles (delete_category k d) =
     map (\<lambda>t. if title_category t = Some k then t\<lparr>title_category := None\<rparr> else t) (titles d)"
  by (simp add: delete_category_def delete_categories_def delete_titles_def delete_reviews_def
      delete_comments_def on_delete_defs Let_def split: option.splits cong: map_cong)

lemma reviews_delete_category: "reviews (delete_category k d) = reviews d"
  by (simp add: delete_category_def delete_categories_def delete_titles_def delete_reviews_def
      delete_comments_def on_delete_defs Let_def)

lemma comments_delete_category: "comments (delete_category k d) = comments d"
  by (simp add: delete_category_def delete_categories_def delete_titles_def delete_reviews_def
      delete_comments_def on_delete_defs Let_def)

lemma categories_delete_category:
  "categories (delete_category k d) = filter (\<lambda>c. category_pk c \<noteq> k) (categories d)"
  by (simp add: delete_category_def delete_categories_def delete_titles_def delete_reviews_def
      delete_comments_def on_delete_defs Let_def)

lemma titles_delete_title:
  "titles (delete_title k d) = filter (\<lambda>t. title_pk t \<noteq> k) (titles d)"
  by (simp add: delete_title_def delete_titles_def delete_reviews_def
      delete_comments_def on_delete_defs Let_def)

lemma reviews_delete_title:
  "reviews (delete_title k d) =
     filter (\<lambda>r. review_pk r \<notin> review_pk ` {x \<in> set (reviews d). review_title x = k}) (reviews d)"
  by (simp add: delete_title_def delete_titles_def delete_reviews_def
      delete_comments_def on_delete_defs Let_def)

lemma comments_delete_title:
  "comments (delete_title k d) =
     filter (\<lambda>c. comment_pk c \<notin> comment_pk `
               {y \<in> set (comments d). comment_review y \<in> review_pk ` {x \<in> set (reviews d). review_title x = k}})
       (comments d)"
  by (simp add: delete_title_def delete_titles_def delete_reviews_def
      delete_comments_def on_delete_defs Let_def)

lemma filter_by_key_image:
  assumes "distinct (map key xs)"
  shows "filter (\<lambda>x. key x \<notin> key ` {y \<in> set xs. P y}) xs = filter (\<lambda>x. \<not> P x) xs"
proof (rule filter_cong [OF refl])
  fix x assume x: "x \<in> set xs"
  have "key x \<in> key ` {y \<in> set xs. P y} \<longleftrightarrow> P x"
  proof
    assume "key x \<in> key ` {y \<in> set xs. P y}"
    then obtain y where y: "y \<in> set xs" "P y" "key x = key y" by auto
    from assms x y(1) y(3) have "x = y"
      by (meson distinct_map inj_onD)
    with y(2) show "P x" by simp
  next
    assume "P x" with x show "key x \<in> key ` {y \<in> set xs. P y}" by auto
  qed
  then show "(key x \<notin> key ` {y \<in> set xs. P y}) = (\<not> P x)" by simp
qed

text \<open>
  Claim C7. Deleting a category keeps every title: a title that referred to the category
  is the same row with its category cleared, and no review or comment is touched.
  Deleting a title leaves no review of that title and no comment on such a review; when
  the keys are unique, exactly these rows are removed.
\<close>

theorem on_delete_set_null_and_cascade:
  "(t \<in> set (titles d) \<and> title_category t = Some k \<longrightarrow>
      t\<lparr>title_category := None\<rparr> \<in> set (titles (delete_category k d)))
   \<and> map title_pk (titles (delete_category k d)) = map title_pk (titles d)
   \<and> (\<forall>c \<in> set (categories (delete_category k d)). category_pk c \<noteq> k)
   \<and> reviews (delete_category k d) = reviews d
   \<and> comments (delete_category k d) = comments d
   \<and> (\<forall>t \<in> set (titles (delete_title k d)). title_pk t \<noteq> k)
   \<and> (\<forall>r \<in> set (reviews (delete_title k d)). review_title r \<noteq> k)
   \<and> (\<forall>c \<in> set (comments (delete_title k d)).
         \<forall>r \<in> set (reviews d). review_title r = k \<longrightarrow> comment_review c \<noteq> review_pk r)
   \<and> (distinct (map review_pk (reviews d)) \<longrightarrow>
         reviews (delete_title k d) = filter (\<lambda>r. review_title r \<noteq> k) (reviews d))
   \<and> (distinct (map comment_pk (comments d)) \<longrightarrow>
         comments (delete_title k d) =
           filter (\<lambda>c. \<forall>r \<in> set (reviews d). review_title r = k \<longrightarrow> comment_review c \<noteq> review_pk r)
             (comments d))"
proof (intro conjI impI)
  assume "t \<in> set (titles d) \<and> title_category t = Some k"
  then show "t\<lparr>title_category := None\<rparr> \<in> set (titles (delete_category k d))"
    by (force simp add: titles_delete_category)
next
  show "map title_pk (titles (delete_category k d)) = map title_pk (titles d)"
    by (simp add: titles_delete_category cong: map_cong)
next
  show "\<forall>c \<in> set (categories (delete_category k d)). category_pk c \<noteq> k"
    by (simp add: categories_delete_category)
next
  show "reviews (delete_category k d) = reviews d"
    by (rule reviews_delete_category)
next
  show "comments (delete_category k d) = comments d"
    by (rule comments_delete_category)
next
  show "\<forall>t \<in> set (titles (delete_title k d)). title_pk t \<noteq> k"
    by (simp add: titles_delete_title)
next
  show "\<forall>r \<in> set (reviews (delete_title k d)). review_title r \<noteq> k"
    by (auto simp add: reviews_delete_title)
next
  show "\<forall>c \<in> set (comments (delete_title k d)).
         \<forall>r \<in> set (reviews d). review_title r = k \<longrightarrow> comment_review c \<noteq> review_pk r"
    by (auto simp add: comments_delete_title)
next
  assume "distinct (map review_pk (reviews d))"
  then show "reviews (delete_title k d) = filter (\<lambda>r. review_title r \<noteq> k) (reviews d)"
    by (simp add: reviews_delete_title filter_by_key_image)
next
  assume "distinct (map comment_pk (comments d))"
  then have "comments (delete_title k d) =
      filter (\<lambda>c. comment_review c \<notin> review_pk ` {x \<in> set (reviews d). review_title x = k}) (comments d)"
    by (simp add: comments_delete_title filter_by_key_image)
  also have "\<dots> = filter (\<lambda>c. \<forall>r \<in> set (reviews d). review_title r = k \<longrightarrow> comment_review c \<noteq> review_pk r)
             (comments d)"
    by (rule filter_cong) auto
  finally show "comments (delete_title k d) =
           filter (\<lambda>c. \<forall>r \<in> set (reviews d). review_title r = k \<longrightarrow> comment_review c \<noteq> review_pk r)
             (comments d)" .
qed

theorem on_delete_set_null_and_cascade_witness:
  "example_title \<in> set (titles example_db) \<and> title_category example_title = Some 1
   \<and> example_title\<lparr>title_category := None\<rparr> \<in> set (titles (delete_category 1 example_db))
   \<and> map title_pk (titles (delete_category 1 example_db)) = [1, 2]
   \<and> distinct (map review_pk (reviews example_db))
   \<and> distinct (map comment_pk (comments example_db))
   \<and> map review_title (reviews example_db) = [1, 1]
   \<and> map comment_review (comments example_db) = [2]
   \<and> reviews (delete_title 1 example_db) = []
   \<and> comments (delete_title 1 example_db) = []"
proof -
  have mem: "example_title \<in> set (titles example_db)"
    by (simp add: example_db_def)
  have cat: "title_category example_title = Some 1"
    by (simp add: example_title_def)
  have pks: "map title_pk (titles example_db) = [1, 2]"
    by (simp add: example_db_def example_title_def unreviewed_title_def)
  have dr: "distinct (map review_pk (reviews example_db))"
    and dc: "distinct (map comment_pk (comments example_db))"
    and rt: "map review_title (reviews example_db) = [1, 1]"
    and cr: "map comment_review (comments example_db) = [2]"
    by (simp_all add: example_db_def example_review_def second_review_def example_comment_def)
  have rs: "filter (\<lambda>r. review_title r \<noteq> 1) (reviews example_db) = []"
    by (simp add: example_db_def example_review_def second_review_def)
  have cs: "filter (\<lambda>c. \<forall>r \<in> set (reviews example_db).
               review_title r = 1 \<longrightarrow> comment_review c \<noteq> review_pk r) (comments example_db) = []"
    by (simp add: example_db_def example_review_def second_review_def example_comment_def)
  note all = on_delete_set_null_and_cascade [of example_title example_db 1]
  have a: "example_title\<lparr>title_category := None\<rparr> \<in> set (titles (delete_category 1 example_db))"
    using all mem cat by (simp only: simp_thms)
  have b: "map title_pk (titles (delete_category 1 example_db)) = [1, 2]"
    using all pks by (simp only: simp_thms)
  have c: "reviews (delete_title 1 example_db) = []"
    using all dr rs by (simp only: simp_thms)
  have e: "comments (delete_title 1 example_db) = []"
    using all dc cs by (simp only: simp_thms)
  show ?thesis by (intro conjI; fact)
qed

section \<open>The rating of a title\<close>

subsection \<open>Rounding to a double\<close>

lemma round_half_even_exact: "0 < d \<Longrightarrow> round_half_even (k * d) d = k"
  by (simp add: round_half_even_def)

text \<open>The rounded integer is within one half of the quotient.\<close>

lemma round_half_even_error:
  assumes "0 < d"
  shows "\<bar>(of_int (round_half_even n d) :: rat) - of_int n / of_int d\<bar> \<le> 1 / 2"
proof -
  define q where "q = n div d"
  define r where "r = n mod d"
  have n: "n = q * d + r" and r: "0 \<le> r" "r < d"
    using assms by (simp_all add: q_def r_def)
  have frac: "(of_int n / of_int d :: rat) = of_int q + of_int r / of_int d"
    using assms by (simp add: n field_simps)
  have d': "(0::rat) < of_int d" using assms by simp
  show ?thesis
  proof (cases "2 * r < d")
    case True
    then have "(of_int (2 * r) :: rat) < of_int d" by (simp only: of_int_less_iff)
    then have "(of_int r / of_int d :: rat) \<le> 1 / 2" using d' by (simp add: field_simps)
    moreover have "(0::rat) \<le> of_int r / of_int d" using r d' by simp
    moreover have "round_half_even n d = q" using True by (simp add: round_half_even_def q_def r_def)
    ultimately show ?thesis by (simp add: frac)
  next
    case False
    show ?thesis
    proof (cases "d < 2 * r")
      case True
      then have "(of_int d :: rat) < of_int (2 * r)" by (simp only: of_int_less_iff)
      then have "(1 / 2 :: rat) \<le> of_int r / of_int d" using d' by (simp add: field_simps)
      moreover have "(of_int r / of_int d :: rat) \<le> 1" using r d' by (simp add: field_simps)
      moreover have "round_half_even n d = q + 1"
        using True False by (simp add: round_half_even_def q_def r_def)
      ultimately show ?thesis by (simp add: frac)
    next
      case tie: False
      with False have "d = 2 * r" by simp
      then have "(of_int r / of_int d :: rat) = 1 / 2" using d' by simp
      moreover have "round_half_even n d = q \<or> round_half_even n d = q + 1"
        using tie False by (simp add: round_half_even_def q_def r_def Let_def)
      moreover note frac
      ultimately have nd: "(of_int n / of_int d :: rat) = of_int q + 1 / 2"
        and rhe: "round_half_even n d = q \<or> round_half_even n d = q + 1"
        by simp_all
      from rhe show ?thesis
      proof
        assume "round_half_even n d = q"
        then show ?thesis by (simp add: nd)
      next
        assume "round_half_even n d = q + 1"
        then show ?thesis by (simp add: nd)
      qed
    qed
  qed
qed

lemma bit_length_bounds:
  "0 < n \<Longrightarrow> 2 ^ (bit_length n - 1) \<le> n \<and> n < 2 ^ bit_length n"
proof (induction n rule: bit_length.induct)
  case (1 n)
  show ?case
  proof (cases "n = 1")
    case True
    have "bit_length 1 = Suc 0"
      by (simp add: bit_length.simps [of 1] bit_length.simps [of 0])
    with True show ?thesis by simp
  next
    case False
    with "1.prems" have pos: "0 < n div 2" by simp
    with "1.IH" "1.prems" have ih: "2 ^ (bit_length (n div 2) - 1) \<le> n div 2"
      "n div 2 < 2 ^ bit_length (n div 2)" by simp_all
    have bl: "bit_length n = Suc (bit_length (n div 2))"
      using "1.prems" by (simp add: bit_length.simps [of n])
    have "0 < bit_length (n div 2)"
      using pos by (simp add: bit_length.simps [of "n div 2"])
    then obtain j where j: "bit_length (n div 2) = Suc j" by (cases "bit_length (n div 2)") simp_all
    have "2 * 2 ^ j \<le> 2 * (n div 2)" using ih(1) j by simp
    also have "\<dots> \<le> n" by simp
    finally have lo: "2 ^ (bit_length n - 1) \<le> n" by (simp add: bl j)
    have "n div 2 + 1 \<le> 2 ^ bit_length (n div 2)" using ih(2) by simp
    then have "2 * (n div 2) + 2 \<le> 2 * 2 ^ bit_length (n div 2)" by simp
    moreover have "n < 2 * (n div 2) + 2" by presburger
    ultimately have "n < 2 ^ bit_length n" by (simp add: bl)
    with lo show ?thesis by simp
  qed
qed

text \<open>
  \<open>floor_log2 a b\<close> is the binary exponent of \<open>a / b\<close>: the bounds are stated on
  integers, for a non-negative and for a negative exponent.
\<close>

lemma floor_log2_nonneg_lower:
  assumes "0 < a" "0 < b" "0 \<le> floor_log2 a b"
  shows "b * 2 ^ nat (floor_log2 a b) \<le> a"
proof -
  define k where "k = int (bit_length a) - int (bit_length b)"
  have unfolded: "floor_log2 a b =
      (if (if 0 \<le> k then b * 2 ^ nat k \<le> a else b \<le> a * 2 ^ nat (- k)) then k else k - 1)"
    by (simp only: floor_log2_def Let_def k_def)
  show ?thesis
  proof (cases "if 0 \<le> k then b * 2 ^ nat k \<le> a else b \<le> a * 2 ^ nat (- k)")
    case True
    then have e: "floor_log2 a b = k"
      unfolding unfolded by (rule if_P)
    with assms(3) True show ?thesis by simp
  next
    case False
    then have e: "floor_log2 a b = k - 1"
      unfolding unfolded by (rule if_not_P)
    with assms(3) have k1: "1 \<le> k" by simp
    have pb: "0 < bit_length b" using assms(2) by (simp add: bit_length.simps [of b])
    from k1 pb have le: "bit_length b \<le> bit_length a - 1" by (simp add: k_def)
    have nk: "nat (k - 1) = bit_length a - 1 - bit_length b"
      using k1 by (simp add: k_def)
    have "b * 2 ^ nat (k - 1) \<le> 2 ^ bit_length b * 2 ^ nat (k - 1)"
      using bit_length_bounds [OF assms(2)] by (simp add: mult_right_mono)
    also have "\<dots> = 2 ^ (bit_length b + (bit_length a - 1 - bit_length b))"
      by (simp only: nk power_add)
    also have "\<dots> = 2 ^ (bit_length a - 1)"
      using le by simp
    also have "\<dots> \<le> a"
      using bit_length_bounds [OF assms(1)] by simp
    finally show ?thesis by (simp add: e)
  qed
qed

lemma floor_log2_neg_lower:
  assumes "0 < a" "0 < b" "floor_log2 a b < 0"
  shows "b \<le> a * 2 ^ nat (- floor_log2 a b)"
proof -
  define k where "k = int (bit_length a) - int (bit_length b)"
  have unfolded: "floor_log2 a b =
      (if (if 0 \<le> k then b * 2 ^ nat k \<le> a else b \<le> a * 2 ^ nat (- k)) then k else k - 1)"
    by (simp only: floor_log2_def Let_def k_def)
  show ?thesis
  proof (cases "if 0 \<le> k then b * 2 ^ nat k \<le> a else b \<le> a * 2 ^ nat (- k)")
    case True
    then have e: "floor_log2 a b = k"
      unfolding unfolded by (rule if_P)
    with assms(3) True show ?thesis by simp
  next
    case False
    then have e: "floor_log2 a b = k - 1"
      unfolding unfolded by (rule if_not_P)
    with assms(3) have k0: "k \<le> 0" by simp
    have pa: "0 < bit_length a" using assms(1) by (simp add: bit_length.simps [of a])
    have le: "bit_length a \<le> bit_length b" using k0 by (simp add: k_def)
    have nk: "nat (- (k - 1)) = Suc (bit_length b - bit_length a)"
      using k0 le by (simp add: k_def)
    have "b \<le> 2 ^ bit_length b"
      using bit_length_bounds [OF assms(2)] by simp
    also have "\<dots> = 2 ^ (bit_length a - 1) * 2 ^ Suc (bit_length b - bit_length a)"
      using le pa by (simp add: power_add [symmetric] del: power_Suc)
    also have "\<dots> \<le> a * 2 ^ Suc (bit_length b - bit_length a)"
      using bit_length_bounds [OF assms(1)] by (intro mult_right_mono) simp_all
    finally show ?thesis by (simp only: e nk)
  qed
qed

lemma floor_log2_lower:
  assumes "0 < a" "0 < b"
  shows "(2::rat) powi floor_log2 a b * of_int b \<le> of_int a"
proof (cases "0 \<le> floor_log2 a b")
  case True
  then have "b * 2 ^ nat (floor_log2 a b) \<le> a"
    by (rule floor_log2_nonneg_lower [OF assms])
  then have "(of_int (b * 2 ^ nat (floor_log2 a b)) :: rat) \<le> of_int a"
    by (simp only: of_int_le_iff)
  moreover have "(2::rat) powi floor_log2 a b = 2 ^ nat (floor_log2 a b)"
    using True by (simp add: power_int_def)
  ultimately show ?thesis by (simp add: mult.commute)
next
  case False
  then have neg: "floor_log2 a b < 0" by simp
  define j where "j = nat (- floor_log2 a b)"
  have "b \<le> a * 2 ^ j"
    unfolding j_def by (rule floor_log2_neg_lower [OF assms neg])
  then have "(of_int b :: rat) \<le> of_int (a * 2 ^ j)"
    by (simp only: of_int_le_iff)
  then have le: "(of_int b :: rat) \<le> of_int a * 2 ^ j" by simp
  have pw: "(2::rat) powi floor_log2 a b = 1 / 2 ^ j"
    using neg by (simp add: power_int_def j_def field_simps)
  have "(2::rat) powi floor_log2 a b * of_int b = of_int b / 2 ^ j"
    by (simp add: pw)
  also have "\<dots> \<le> of_int a"
    using le by (simp add: field_simps)
  finally show ?thesis .
qed

lemma floor_log2_neg_upper:
  assumes "0 < a" "0 < b" "floor_log2 a b < 0"
  shows "a * 2 ^ nat (- floor_log2 a b - 1) < b"
proof -
  define k where "k = int (bit_length a) - int (bit_length b)"
  have unfolded: "floor_log2 a b =
      (if (if 0 \<le> k then b * 2 ^ nat k \<le> a else b \<le> a * 2 ^ nat (- k)) then k else k - 1)"
    by (simp only: floor_log2_def Let_def k_def)
  show ?thesis
  proof (cases "if 0 \<le> k then b * 2 ^ nat k \<le> a else b \<le> a * 2 ^ nat (- k)")
    case True
    then have e: "floor_log2 a b = k"
      unfolding unfolded by (rule if_P)
    with assms(3) have k0: "k < 0" by simp
    have pb: "0 < bit_length b" using assms(2) by (simp add: bit_length.simps [of b])
    have lt: "bit_length a < bit_length b" using k0 by (simp add: k_def)
    have nk: "nat (- k - 1) = bit_length b - 1 - bit_length a"
      using k0 lt by (simp add: k_def)
    have "a * 2 ^ nat (- k - 1) < 2 ^ bit_length a * 2 ^ nat (- k - 1)"
      using bit_length_bounds [OF assms(1)] by (intro mult_strict_right_mono) simp_all
    also have "\<dots> = 2 ^ (bit_length a + (bit_length b - 1 - bit_length a))"
      by (simp only: nk power_add)
    also have "\<dots> = 2 ^ (bit_length b - 1)"
      using lt by simp
    also have "\<dots> \<le> b"
      using bit_length_bounds [OF assms(2)] by simp
    finally show ?thesis by (simp only: e)
  next
    case False
    then have e: "floor_log2 a b = k - 1"
      unfolding unfolded by (rule if_not_P)
    with assms(3) have k0: "k \<le> 0" by simp
    show ?thesis
    proof (cases "k = 0")
      case True
      with False have "a < b" by simp
      with True show ?thesis by (simp add: e)
    next
      case nz: False
      with k0 have "k < 0" by simp
      with False have "a * 2 ^ nat (- k) < b" by simp
      moreover have "- (k - 1) - 1 = - k" by simp
      ultimately show ?thesis by (simp only: e)
    qed
  qed
qed

lemma floor_log2_ge:
  assumes "0 < a" "0 < b" "b \<le> a * 2 ^ j"
  shows "- int j \<le> floor_log2 a b"
proof (rule ccontr)
  assume "\<not> - int j \<le> floor_log2 a b"
  then have lt: "floor_log2 a b < - int j" by simp
  then have neg: "floor_log2 a b < 0" by simp
  have "j \<le> nat (- floor_log2 a b - 1)" using lt by simp
  then have "(2::int) ^ j \<le> 2 ^ nat (- floor_log2 a b - 1)"
    by (intro power_increasing) simp_all
  then have "a * 2 ^ j \<le> a * 2 ^ nat (- floor_log2 a b - 1)"
    using assms(1) by (intro mult_left_mono) simp_all
  also have "\<dots> < b"
    by (rule floor_log2_neg_upper [OF assms(1,2) neg])
  finally show False using assms(3) by simp
qed

text \<open>
  A quotient that is an integer below \<open>2 ^ 53\<close> in magnitude is a double, and is the
  result.
\<close>

lemma binary64_quotient_exact:
  assumes "0 < b" and "\<bar>k\<bar> < 2 ^ 53"
  shows "binary64_quotient (k * b) b = Finite (of_int k)"
proof (cases "k = 0")
  case True
  then show ?thesis by (simp add: binary64_quotient_def)
next
  case False
  define m where "m = \<bar>k\<bar> * b"
  have m: "\<bar>k * b\<bar> = m" using assms(1) by (simp add: m_def abs_mult)
  have mpos: "0 < m" using False assms(1) by (simp add: m_def)
  define e where "e = floor_log2 m b"
  have e52: "e \<le> 52"
  proof (rule ccontr)
    assume "\<not> e \<le> 52"
    then have e53: "53 \<le> e" by simp
    then have "b * 2 ^ nat e \<le> m"
      using floor_log2_nonneg_lower [OF mpos assms(1)] by (simp add: e_def)
    then have "2 ^ nat e * b \<le> \<bar>k\<bar> * b" by (simp add: m_def mult.commute)
    then have "2 ^ nat e \<le> \<bar>k\<bar>" using assms(1) by simp
    moreover have "(2::int) ^ 53 \<le> 2 ^ nat e"
      using e53 by (intro power_increasing) simp_all
    ultimately show False using assms(2) by simp
  qed
  define p where "p = max (e - 52) (- 1074)"
  have p0: "p \<le> 0" using e52 by (simp add: p_def)
  define n where "n = (if 0 \<le> p then round_half_even m (b * 2 ^ nat p)
                  else round_half_even (m * 2 ^ nat (- p)) b)"
  have x: "(of_int n :: rat) * 2 powi p = of_int \<bar>k\<bar>"
  proof (cases "p = 0")
    case True
    then have "n = round_half_even (\<bar>k\<bar> * b) b" by (simp add: n_def m_def)
    then have "n = \<bar>k\<bar>" using assms(1) by (simp add: round_half_even_exact)
    with True show ?thesis by simp
  next
    case False
    with p0 have neg: "p < 0" by simp
    then have "n = round_half_even ((\<bar>k\<bar> * 2 ^ nat (- p)) * b) b"
      by (simp add: n_def m_def mult.assoc mult.left_commute mult.commute)
    then have n: "n = \<bar>k\<bar> * 2 ^ nat (- p)"
      using assms(1) by (simp only: round_half_even_exact)
    have "(2::rat) powi p = 1 / 2 ^ nat (- p)"
      using neg by (simp add: power_int_def field_simps)
    then show ?thesis by (simp add: n)
  qed
  have small: "\<not> (2::rat) ^ 1024 \<le> of_int \<bar>k\<bar>"
  proof -
    have "(of_int \<bar>k\<bar> :: rat) < of_int (2 ^ 53)"
      using assms(2) by (simp only: of_int_less_iff)
    also have "(of_int (2 ^ 53) :: rat) = 2 ^ 53" by simp
    also have "(2::rat) ^ 53 \<le> 2 ^ 1024"
      by (rule power_increasing) simp_all
    finally show ?thesis by (simp only: not_le)
  qed
  have sg: "sgn (k * b) = sgn k" using assms(1) by (simp add: sgn_mult)
  have "binary64_quotient (k * b) b =
      (if 2 ^ 1024 \<le> (of_int n :: rat) * 2 powi p
       then (if 0 < k * b then PlusInfinity else MinusInfinity)
       else Finite (of_int (sgn (k * b)) * (of_int n * 2 powi p)))"
    using False assms(1)
    by (simp add: binary64_quotient_def m Let_def n_def p_def e_def)
  also have "\<dots> = Finite (of_int (sgn k) * of_int \<bar>k\<bar>)"
    using small by (simp only: x sg if_False)
  also have "of_int (sgn k) * (of_int \<bar>k\<bar> :: rat) = of_int k"
    by (simp only: of_int_mult [symmetric] sgn_mult_abs)
  finally show ?thesis .
qed

text \<open>
  In the normal range, where the exponent of the quotient is at least \<open>-1022\<close>, a finite
  result differs from the exact quotient by at most half a unit in the last place: the
  relative error is at most \<open>2 ^ (-53)\<close>.
\<close>

lemma binary64_quotient_accuracy:
  assumes "0 < b" and "a \<noteq> 0" and "- 1022 \<le> floor_log2 \<bar>a\<bar> b"
    and "binary64_quotient a b = Finite y"
  shows "\<bar>y - of_int a / of_int b\<bar> \<le> \<bar>of_int a / of_int b\<bar> / 2 ^ 53"
proof -
  define m where "m = \<bar>a\<bar>"
  define e where "e = floor_log2 m b"
  define p where "p = e - 52"
  define n where "n = (if 0 \<le> p then round_half_even m (b * 2 ^ nat p)
                       else round_half_even (m * 2 ^ nat (- p)) b)"
  define P :: rat where "P = 2 powi p"
  define q :: rat where "q = of_int m / of_int b"
  have mpos: "0 < m" using assms(2) by (simp add: m_def)
  have bpos: "(0::rat) < of_int b" using assms(1) by simp
  have Ppos: "0 < P" by (simp add: P_def)
  have pmax: "max (floor_log2 \<bar>a\<bar> b - 52) (- 1074) = p"
    using assms(3) by (simp add: p_def e_def m_def)
  have unfolded: "binary64_quotient a b =
      (if 2 ^ 1024 \<le> of_int n * P then (if 0 < a then PlusInfinity else MinusInfinity)
       else Finite (of_int (sgn a) * (of_int n * P)))"
    using assms(2) unfolding binary64_quotient_def Let_def pmax
    by (simp only: n_def P_def m_def if_False)
  have y: "y = of_int (sgn a) * (of_int n * P)"
    using assms(4) unfolding unfolded by (simp split: if_splits)
  have near: "\<bar>of_int n - q / P\<bar> \<le> 1 / 2"
  proof (cases "0 \<le> p")
    case True
    then have n: "n = round_half_even m (b * 2 ^ nat p)" by (simp add: n_def)
    have d: "0 < b * 2 ^ nat p" using assms(1) by simp
    have cast: "(of_int (b * 2 ^ nat p) :: rat) = of_int b * P"
      using True by (simp add: P_def power_int_def)
    have "q / P = of_int m / (of_int b * P)"
      by (simp add: q_def)
    then have "q / P = of_int m / of_int (b * 2 ^ nat p)"
      by (simp only: cast)
    then show ?thesis
      using round_half_even_error [OF d, of m] by (simp only: n)
  next
    case False
    then have n: "n = round_half_even (m * 2 ^ nat (- p)) b" by (simp add: n_def)
    have "P = 1 / 2 ^ nat (- p)"
      using False by (simp add: P_def power_int_def field_simps)
    then have "q / P = of_int (m * 2 ^ nat (- p)) / of_int b"
      by (simp add: q_def)
    then show ?thesis
      using round_half_even_error [OF assms(1), of "m * 2 ^ nat (- p)"] by (simp only: n)
  qed
  have "\<bar>of_int n * P - q\<bar> = \<bar>of_int n - q / P\<bar> * P"
  proof -
    have "of_int n * P - q = (of_int n - q / P) * P"
      using Ppos by (simp add: field_simps)
    then show ?thesis using Ppos by (simp add: abs_mult)
  qed
  also have "\<dots> \<le> 1 / 2 * P"
    using near Ppos by (intro mult_right_mono) simp_all
  finally have err: "\<bar>of_int n * P - q\<bar> \<le> P / 2" by simp
  have "(2::rat) powi e = P * 2 ^ 52"
  proof -
    have "(2::rat) powi e = 2 powi (p + 52)" by (simp add: p_def)
    also have "\<dots> = 2 powi p * 2 powi 52" by (simp add: power_int_add)
    finally show ?thesis by (simp add: P_def)
  qed
  moreover have "(2::rat) powi e * of_int b \<le> of_int m"
    unfolding e_def by (rule floor_log2_lower [OF mpos assms(1)])
  ultimately have "P * 2 ^ 52 * of_int b \<le> of_int m" by simp
  then have "P * 2 ^ 52 \<le> q"
    using bpos by (simp add: q_def field_simps)
  then have "P / 2 \<le> q / 2 ^ 53" by simp
  with err have bound: "\<bar>of_int n * P - q\<bar> \<le> q / 2 ^ 53" by simp
  have s1: "\<bar>(of_int (sgn a) :: rat)\<bar> = 1"
    using assms(2) by (simp add: sgn_if)
  have a: "(of_int a :: rat) = of_int (sgn a) * of_int m"
    unfolding m_def by (simp only: of_int_mult [symmetric] sgn_mult_abs)
  have "y - of_int a / of_int b = of_int (sgn a) * (of_int n * P - q)"
    by (simp add: y a q_def algebra_simps)
  then have lhs: "\<bar>y - of_int a / of_int b\<bar> = \<bar>of_int n * P - q\<bar>"
    by (simp add: abs_mult s1)
  have rhs: "\<bar>of_int a / of_int b :: rat\<bar> = q"
    using bpos mpos by (simp add: q_def m_def abs_divide)
  show ?thesis using bound by (simp only: lhs rhs)
qed

subsection \<open>The annotated query\<close>

lemma map_filter_Some: "List.map_filter id (map (\<lambda>r. Some (f r)) xs) = map f xs"
  by (induction xs) (simp_all add: List.map_filter_simps)

lemma Avg_left_join_scores:
  "Avg (left_join_scores t rs) =
     (let R = map score (filter (\<lambda>r. review_title r = title_pk t) rs)
      in if R = [] then None else Some (binary64_quotient (sum_list R) (int (length R))))"
proof (cases "filter (\<lambda>r. review_title r = title_pk t) rs")
  case Nil
  then show ?thesis
    by (simp add: Avg_def left_join_scores_def List.map_filter_simps)
next
  case (Cons m ms)
  have "List.map_filter id (left_join_scores t rs) = map score (m # ms)"
    using Cons by (simp add: left_join_scores_def map_filter_Some del: list.map)
  then show ?thesis
    using Cons by (simp add: Avg_def Let_def)
qed

lemma set_TitleViewSet_queryset:
  "set (TitleViewSet_queryset d) = annotate_rating d ` set (titles d)"
  by (simp add: TitleViewSet_queryset_def)

lemma queryset_example_db:
  "TitleViewSet_queryset example_db
     = [(unreviewed_title, None), (example_title, Some (Finite 9))]"
proof -
  have "binary64_quotient (9 * 2) 2 = Finite (of_int 9)"
    by (rule binary64_quotient_exact) simp_all
  then have nine: "binary64_quotient 18 2 = Finite 9" by simp
  show ?thesis
    by (simp add: TitleViewSet_queryset_def annotate_rating_def Avg_def left_join_scores_def
        example_db_def example_title_def unreviewed_title_def example_review_def
        second_review_def List.map_filter_simps nine)
qed

lemma queryset_after_delete:
  "TitleViewSet_queryset (delete_reviews [2] example_db)
     = [(unreviewed_title, None), (example_title, Some (Finite 8))]"
proof -
  have "binary64_quotient (8 * 1) 1 = Finite (of_int 8)"
    by (rule binary64_quotient_exact) simp_all
  then have eight: "binary64_quotient 8 1 = Finite 8" by simp
  show ?thesis
    by (simp add: TitleViewSet_queryset_def annotate_rating_def Avg_def left_join_scores_def
        delete_reviews_def delete_comments_def Let_def
        example_db_def example_title_def unreviewed_title_def example_review_def
        second_review_def List.map_filter_simps eight)
qed

lemma binary64_quotient_5_3:
  "binary64_quotient 5 3 = Finite (7505999378950827 / 4503599627370496)"
  by code_simp

lemma queryset_thirds_db:
  "TitleViewSet_queryset thirds_db
     = [(example_title, Some (Finite (7505999378950827 / 4503599627370496)))]"
  by (simp add: TitleViewSet_queryset_def annotate_rating_def Avg_def left_join_scores_def
      thirds_db_def example_title_def example_review_def second_review_def
      List.map_filter_simps binary64_quotient_5_3)

text \<open>
  Claim C5, as amended. The rows of the title query are the titles, each with its
  rating: no value when the title has no review, and otherwise the sum of the scores of
  its reviews divided by their number, rounded to the nearest double. When that mean is
  an integer below \<open>2 ^ 53\<close> in magnitude, the rating is the mean itself; when the mean
  is at least \<open>2 ^ (-1022)\<close> in magnitude, a finite rating differs from the mean by at
  most the mean divided by \<open>2 ^ 53\<close>. The rating is computed from the reviews in the
  store at the time of the query, so this holds for the store after any creation,
  change or deletion of a review: with the scores 8 and 10 the rating is 9, and after
  the review with the score 10 is deleted it is 8; a title without a review has no
  rating.
\<close>

theorem rating_is_rounded_mean:
  "((t, x) \<in> set (TitleViewSet_queryset d)) =
     (t \<in> set (titles d) \<and>
      x = (let R = map score (filter (\<lambda>r. review_title r = title_pk t) (reviews d))
           in if R = [] then None
              else Some (binary64_quotient (sum_list R) (int (length R)))))
   \<and> ((t, x) \<in> set (TitleViewSet_queryset d)
        \<and> filter (\<lambda>r. review_title r = title_pk t) (reviews d) \<noteq> []
        \<and> sum_list (map score (filter (\<lambda>r. review_title r = title_pk t) (reviews d)))
            = k * int (length (filter (\<lambda>r. review_title r = title_pk t) (reviews d)))
        \<and> \<bar>k\<bar> < 2 ^ 53
       \<longrightarrow> x = Some (Finite (of_int k)))
   \<and> ((t, Some (Finite y)) \<in> set (TitleViewSet_queryset d)
        \<and> int (length (filter (\<lambda>r. review_title r = title_pk t) (reviews d)))
            \<le> \<bar>sum_list (map score (filter (\<lambda>r. review_title r = title_pk t) (reviews d)))\<bar>
                * 2 ^ 1022
       \<longrightarrow> \<bar>y - of_int (sum_list (map score (filter (\<lambda>r. review_title r = title_pk t) (reviews d))))
                / of_nat (length (filter (\<lambda>r. review_title r = title_pk t) (reviews d)))\<bar>
             \<le> \<bar>of_int (sum_list (map score (filter (\<lambda>r. review_title r = title_pk t) (reviews d))))
                  / of_nat (length (filter (\<lambda>r. review_title r = title_pk t) (reviews d)))\<bar>
                / 2 ^ 53)
   \<and> length (TitleViewSet_queryset d) = length (titles d)
   \<and> TitleViewSet_queryset example_db
       = [(unreviewed_title, None), (example_title, Some (Finite 9))]
   \<and> TitleViewSet_queryset (delete_reviews [2] example_db)
       = [(unreviewed_title, None), (example_title, Some (Finite 8))]"
proof (intro conjI impI)
  show "((t, x) \<in> set (TitleViewSet_queryset d)) =
     (t \<in> set (titles d) \<and>
      x = (let R = map score (filter (\<lambda>r. review_title r = title_pk t) (reviews d))
           in if R = [] then None
              else Some (binary64_quotient (sum_list R) (int (length R)))))"
    by (auto simp add: set_TitleViewSet_queryset annotate_rating_def Avg_left_join_scores)
next
  let ?F = "filter (\<lambda>r. review_title r = title_pk t) (reviews d)"
  assume h: "(t, x) \<in> set (TitleViewSet_queryset d) \<and> ?F \<noteq> []
        \<and> sum_list (map score ?F) = k * int (length ?F) \<and> \<bar>k\<bar> < 2 ^ 53"
  then have "x = Avg (left_join_scores t (reviews d))"
    by (auto simp add: set_TitleViewSet_queryset annotate_rating_def)
  with h have "x = Some (binary64_quotient (k * int (length ?F)) (int (length ?F)))"
    by (simp add: Avg_left_join_scores Let_def)
  moreover have "binary64_quotient (k * int (length ?F)) (int (length ?F)) = Finite (of_int k)"
    using h by (intro binary64_quotient_exact) simp_all
  ultimately show "x = Some (Finite (of_int k))" by simp
next
  let ?F = "filter (\<lambda>r. review_title r = title_pk t) (reviews d)"
  let ?a = "sum_list (map score ?F)"
  assume h: "(t, Some (Finite y)) \<in> set (TitleViewSet_queryset d)
        \<and> int (length ?F) \<le> \<bar>?a\<bar> * 2 ^ 1022"
  then have "Some (Finite y) = Avg (left_join_scores t (reviews d))"
    by (auto simp add: set_TitleViewSet_queryset annotate_rating_def)
  then have ne: "?F \<noteq> []" and fin: "binary64_quotient ?a (int (length ?F)) = Finite y"
    by (simp_all add: Avg_left_join_scores Let_def split: if_splits)
  from ne have b: "0 < int (length ?F)" by simp
  with h have a: "?a \<noteq> 0" by auto
  then have "0 < \<bar>?a\<bar>" by simp
  then have "- int 1022 \<le> floor_log2 \<bar>?a\<bar> (int (length ?F))"
    using b h by (intro floor_log2_ge) simp_all
  then have "- 1022 \<le> floor_log2 \<bar>?a\<bar> (int (length ?F))" by simp
  from binary64_quotient_accuracy [OF b a this fin]
  show "\<bar>y - of_int ?a / of_nat (length ?F)\<bar> \<le> \<bar>of_int ?a / of_nat (length ?F)\<bar> / 2 ^ 53"
    by simp
next
  show "length (TitleViewSet_queryset d) = length (titles d)"
    by (simp add: TitleViewSet_queryset_def)
next
  show "TitleViewSet_queryset example_db
       = [(unreviewed_title, None), (example_title, Some (Finite 9))]"
    by (rule queryset_example_db)
next
  show "TitleViewSet_queryset (delete_reviews [2] example_db)
       = [(unreviewed_title, None), (example_title, Some (Finite 8))]"
    by (rule queryset_after_delete)
qed

theorem rating_is_rounded_mean_witness:
  "(example_title, Some (Finite 9)) \<in> set (TitleViewSet_queryset example_db)
   \<and> map score (filter (\<lambda>r. review_title r = title_pk example_title) (reviews example_db))
       = [8, 10]
   \<and> (8 + 10 :: int) = 9 * 2
   \<and> (2 :: int) \<le> \<bar>8 + 10\<bar> * 2 ^ 1022
   \<and> (unreviewed_title, None) \<in> set (TitleViewSet_queryset example_db)"
proof -
  note inst = rating_is_rounded_mean [of example_title "Some (Finite 9)" example_db 9 9]
  have q: "TitleViewSet_queryset example_db
       = [(unreviewed_title, None), (example_title, Some (Finite 9))]"
    by (rule inst [THEN conjunct2, THEN conjunct2, THEN conjunct2, THEN conjunct2,
                   THEN conjunct1])
  have a: "(example_title, Some (Finite 9)) \<in> set (TitleViewSet_queryset example_db)"
    by (simp add: q)
  have b: "map score (filter (\<lambda>r. review_title r = title_pk example_title) (reviews example_db))
       = [8, 10]"
    by (simp add: example_db_def example_title_def example_review_def second_review_def)
  have c: "(8 + 10 :: int) = 9 * 2" by simp
  have c': "(2 :: int) \<le> \<bar>8 + 10\<bar> * 2 ^ 1022" by simp
  have e: "(unreviewed_title, None) \<in> set (TitleViewSet_queryset example_db)"
    by (simp add: q)
  show ?thesis by (intro conjI; fact)
qed

text \<open>
  Claim C5, as stated, fails: with the scores 1, 2 and 2 the mean is \<open>5 / 3\<close>, which is
  no double, and the rating is the double next to it.
\<close>

theorem rating_differs_from_exact_mean:
  "TitleViewSet_queryset thirds_db
     = [(example_title, Some (Finite (7505999378950827 / 4503599627370496)))]
   \<and> map score (filter (\<lambda>r. review_title r = title_pk example_title) (reviews thirds_db))
       = [1, 2, 2]
   \<and> Finite (7505999378950827 / 4503599627370496) \<noteq> Finite (of_int (1 + 2 + 2) / of_nat 3)"
proof (intro conjI)
  show "TitleViewSet_queryset thirds_db
     = [(example_title, Some (Finite (7505999378950827 / 4503599627370496)))]"
    by (rule queryset_thirds_db)
next
  show "map score (filter (\<lambda>r. review_title r = title_pk example_title) (reviews thirds_db))
       = [1, 2, 2]"
    by (simp add: thirds_db_def example_title_def example_review_def second_review_def)
next
  show "Finite (7505999378950827 / 4503599627370496) \<noteq> Finite (of_int (1 + 2 + 2) / of_nat 3)"
    by simp
qed

section \<open>The profile endpoint\<close>

lemma filter_unique_key:
  "distinct (map f xs) \<Longrightarrow> x \<in> set xs \<Longrightarrow> filter (\<lambda>y. f y = f x) xs = [x]"
proof (induction xs)
  case Nil
  then show ?case by simp
next
  case (Cons a xs)
  show ?case
  proof (cases "a = x")
    case True
    with Cons.prems have "f x \<notin> f ` set xs" by simp
    then have "\<forall>y \<in> set xs. f y \<noteq> f x" by (metis imageI)
    then have "filter (\<lambda>y. f y = f x) xs = []" by (simp add: filter_empty_conv)
    with True show ?thesis by simp
  next
    case False
    with Cons.prems have "x \<in> set xs" "f a \<noteq> f x" by auto
    with Cons show ?thesis by simp
  qed
qed

lemma User_save_users:
  "User_save u d = Inr d' \<Longrightarrow> u' \<in> set (users d) \<Longrightarrow> pk u' = pk u \<Longrightarrow>
     distinct (map pk (users d)) \<Longrightarrow>
     users d' = map (\<lambda>x. if x = u' then u else x) (users d)"
proof -
  assume s: "User_save u d = Inr d'" and m: "u' \<in> set (users d)" and k: "pk u' = pk u"
    and dist: "distinct (map pk (users d))"
  have ex: "list_ex (\<lambda>x. pk x = pk u) (users d)"
    using m k by (auto simp add: list_ex_iff)
  from s ex have d': "users d' = map (\<lambda>x. if pk x = pk u then u else x) (users d)"
    by (auto simp add: User_save_def split: if_splits)
  have "\<And>x. x \<in> set (users d) \<Longrightarrow> (pk x = pk u) = (x = u')"
    using dist m k by (metis distinct_map inj_onD)
  then show ?thesis
    unfolding d' by (simp cong: map_cong)
qed

lemma setattrs_save_kwargs:
  "setattrs instance (save_kwargs instance vd) =
     instance\<lparr>username := case_option (username instance) id (vd_username vd),
              first_name := case_option (first_name instance) id (vd_first_name vd),
              last_name := case_option (last_name instance) id (vd_last_name vd),
              bio := case_option (bio instance) id (vd_bio vd)\<rparr>"
  by (simp add: setattrs_def save_kwargs_def)

lemma User_save_tables: "User_save u d = Inr d' \<Longrightarrow> d' = d\<lparr>users := users d'\<rparr>"
  by (auto simp add: User_save_def split: if_splits)

text \<open>
  What a request to \<open>/users/me\<close> by a user of the store can change: at most the user
  name, the first name, the last name and the biography of that user's own row.
\<close>

lemma me_changes_only_profile_fields:
  assumes "distinct (map pk (users d))" and "instance \<in> set (users d)"
    and "UserViewSet_me run_validation \<lparr>http_method = m, user = Authenticated instance\<rparr>
           payload d = (res, d')"
  shows "\<exists>un fn ln bi.
           users d' = map (\<lambda>x. if pk x = pk instance
                               then x\<lparr>username := un, first_name := fn, last_name := ln, bio := bi\<rparr>
                               else x) (users d)
           \<and> d' = d\<lparr>users := users d'\<rparr>
           \<and> (\<forall>u'. res = Inr (Serialized u') \<longrightarrow>
                 u' = instance\<lparr>username := un, first_name := fn, last_name := ln, bio := bi\<rparr>)"
proof -
  have same: "\<And>x. x \<in> set (users d) \<Longrightarrow> (pk x = pk instance) = (x = instance)"
    using assms(1,2) by (metis distinct_map inj_onD)
  have unchanged: "?thesis" if "d' = d" and "\<forall>u'. res = Inr (Serialized u') \<longrightarrow> u' = instance"
  proof (intro exI conjI)
    show "users d' = map (\<lambda>x. if pk x = pk instance
            then x\<lparr>username := username instance, first_name := first_name instance,
                   last_name := last_name instance, bio := bio instance\<rparr>
            else x) (users d)"
      using that(1) same by (simp add: map_idI)
    show "d' = d\<lparr>users := users d'\<rparr>"
      using that(1) by simp
    show "\<forall>u'. res = Inr (Serialized u') \<longrightarrow>
            u' = instance\<lparr>username := username instance, first_name := first_name instance,
                           last_name := last_name instance, bio := bio instance\<rparr>"
      using that(2) by simp
  qed
  show ?thesis
  proof (cases "m = ''PATCH''")
    case False
    with assms(3) have "d' = d" "\<forall>u'. res = Inr (Serialized u') \<longrightarrow> u' = instance"
      by (auto simp add: UserViewSet_me_def split: if_splits)
    then show ?thesis by (rule unchanged)
  next
    case patch: True
    show ?thesis
    proof (cases "run_validation payload")
      case None
      with patch assms(3) have "d' = d" "\<forall>u'. res = Inr (Serialized u') \<longrightarrow> u' = instance"
        by (auto simp add: UserViewSet_me_def)
      then show ?thesis by (rule unchanged)
    next
      case (Some vd)
      let ?i = "setattrs instance (save_kwargs instance vd)"
      have key: "pk ?i = pk instance"
        by (simp add: setattrs_save_kwargs)
      show ?thesis
      proof (cases "User_save ?i d")
        case (Inl e)
        with patch Some assms(3)
        have "d' = d" "\<forall>u'. res = Inr (Serialized u') \<longrightarrow> u' = instance"
          by (auto simp add: UserViewSet_me_def Let_def)
        then show ?thesis by (rule unchanged)
      next
        case (Inr d'')
        with patch Some assms(3) have res: "res = Inr (Serialized ?i)" and d'': "d'' = d'"
          by (auto simp add: UserViewSet_me_def Let_def)
        have saved: "User_save ?i d = Inr d'" using Inr d'' by simp
        have us: "users d' = map (\<lambda>x. if x = instance then ?i else x) (users d)"
          using User_save_users [OF saved assms(2) _ assms(1)] key by simp
        show ?thesis
        proof (intro exI conjI)
          show "users d' = map (\<lambda>x. if pk x = pk instance
              then x\<lparr>username := case_option (username instance) id (vd_username vd),
                     first_name := case_option (first_name instance) id (vd_first_name vd),
                     last_name := case_option (last_name instance) id (vd_last_name vd),
                     bio := case_option (bio instance) id (vd_bio vd)\<rparr>
              else x) (users d)"
            unfolding us using same by (auto simp add: setattrs_save_kwargs)
          show "d' = d\<lparr>users := users d'\<rparr>"
            using saved by (rule User_save_tables)
          show "\<forall>u'. res = Inr (Serialized u') \<longrightarrow>
              u' = instance\<lparr>username := case_option (username instance) id (vd_username vd),
                     first_name := case_option (first_name instance) id (vd_first_name vd),
                     last_name := case_option (last_name instance) id (vd_last_name vd),
                     bio := case_option (bio instance) id (vd_bio vd)\<rparr>"
            by (simp add: res setattrs_save_kwargs)
        qed
      qed
    qed
  qed
qed

text \<open>
  Claim C8. For every authenticated user of the store, every payload, every outcome of
  the serializer's validation and every method, a request to \<open>/users/me\<close> leaves the
  email and the role of every row as they were, also when the payload gives new values
  for them. Nothing changes but the user name, the first name, the last name and the
  biography of the user's own row: the key, the confirmation code, the active flag and
  the staff flag of every row, the rows of the other users and the other tables are
  kept, and the instance in the response has the email and the role of the user.
\<close>

theorem me_keeps_email_and_role:
  assumes "distinct (map pk (users d))" and "instance \<in> set (users d)"
    and "UserViewSet_me run_validation \<lparr>http_method = m, user = Authenticated instance\<rparr>
           payload d = (res, d')"
  shows "map email (users d') = map email (users d)
       \<and> map role (users d') = map role (users d)
       \<and> map pk (users d') = map pk (users d)
       \<and> map confirmation_code (users d') = map confirmation_code (users d)
       \<and> map is_active (users d') = map is_active (users d)
       \<and> map is_staff (users d') = map is_staff (users d)
       \<and> (\<forall>x \<in> set (users d). pk x \<noteq> pk instance \<longrightarrow> x \<in> set (users d'))
       \<and> (\<exists>un fn ln bi.
             users d' = map (\<lambda>x. if pk x = pk instance
                                 then x\<lparr>username := un, first_name := fn, last_name := ln, bio := bi\<rparr>
                                 else x) (users d))
       \<and> d' = d\<lparr>users := users d'\<rparr>
       \<and> (\<forall>u'. res = Inr (Serialized u') \<longrightarrow>
             email u' = email instance \<and> role u' = role instance)"
proof -
  from me_changes_only_profile_fields [OF assms]
  obtain un fn ln bi where
    us: "users d' = map (\<lambda>x. if pk x = pk instance
                               then x\<lparr>username := un, first_name := fn, last_name := ln, bio := bi\<rparr>
                               else x) (users d)"
    and tabs: "d' = d\<lparr>users := users d'\<rparr>"
    and resp: "\<forall>u'. res = Inr (Serialized u') \<longrightarrow>
                 u' = instance\<lparr>username := un, first_name := fn, last_name := ln, bio := bi\<rparr>"
    by blast
  let ?g = "\<lambda>x. if pk x = pk instance
                 then x\<lparr>username := un, first_name := fn, last_name := ln, bio := bi\<rparr> else x"
  have us': "users d' = map ?g (users d)" by (rule us)
  have g: "email (?g x) = email x" "role (?g x) = role x" "pk (?g x) = pk x"
    "confirmation_code (?g x) = confirmation_code x" "is_active (?g x) = is_active x"
    "is_staff (?g x) = is_staff x" for x
    by simp_all
  have c1: "map email (users d') = map email (users d)"
    by (simp only: us' map_map o_def g)
  have c2: "map role (users d') = map role (users d)"
    by (simp only: us' map_map o_def g)
  have c3: "map pk (users d') = map pk (users d)"
    by (simp only: us' map_map o_def g)
  have c4: "map confirmation_code (users d') = map confirmation_code (users d)"
    by (simp only: us' map_map o_def g)
  have c5: "map is_active (users d') = map is_active (users d)"
    by (simp only: us' map_map o_def g)
  have c6: "map is_staff (users d') = map is_staff (users d)"
    by (simp only: us' map_map o_def g)
  have c7: "\<forall>x \<in> set (users d). pk x \<noteq> pk instance \<longrightarrow> x \<in> set (users d')"
  proof (intro ballI impI)
    fix x assume x: "x \<in> set (users d)" and other: "pk x \<noteq> pk instance"
    from other have gx: "?g x = x" by simp
    from x have "?g x \<in> ?g ` set (users d)" by (rule imageI)
    then have "x \<in> ?g ` set (users d)" by (simp only: gx)
    then show "x \<in> set (users d')" by (simp only: us' set_map)
  qed
  have c8: "\<exists>un fn ln bi.
             users d' = map (\<lambda>x. if pk x = pk instance
                                 then x\<lparr>username := un, first_name := fn, last_name := ln, bio := bi\<rparr>
                                 else x) (users d)"
    using us by (intro exI)
  have c9: "\<forall>u'. res = Inr (Serialized u') \<longrightarrow>
             email u' = email instance \<and> role u' = role instance"
  proof (intro allI impI)
    fix u' assume "res = Inr (Serialized u')"
    with resp have "u' = instance\<lparr>username := un, first_name := fn, last_name := ln, bio := bi\<rparr>"
      by simp
    then show "email u' = email instance \<and> role u' = role instance" by simp
  qed
  show ?thesis by (intro conjI; fact)
qed

theorem me_keeps_email_and_role_witness:
  "distinct (map pk (users example_db)) \<and> example_author \<in> set (users example_db)
   \<and> vd_email hostile_patch = Some ''eve@example.com'' \<and> vd_role hostile_patch = Some ''admin''
   \<and> UserViewSet_me Some \<lparr>http_method = ''PATCH'', user = Authenticated example_author\<rparr>
        hostile_patch example_db
       = (Inr (Serialized (example_author\<lparr>bio := ''hello''\<rparr>)),
          example_db\<lparr>users := [example_author\<lparr>bio := ''hello''\<rparr>, example_staff, example_admin]\<rparr>)
   \<and> map email (users (example_db
        \<lparr>users := [example_author\<lparr>bio := ''hello''\<rparr>, example_staff, example_admin]\<rparr>))
       = map email (users example_db)
   \<and> map role (users (example_db
        \<lparr>users := [example_author\<lparr>bio := ''hello''\<rparr>, example_staff, example_admin]\<rparr>))
       = map role (users example_db)
   \<and> map is_staff (users (example_db
        \<lparr>users := [example_author\<lparr>bio := ''hello''\<rparr>, example_staff, example_admin]\<rparr>))
       = map is_staff (users example_db)"
proof -
  have dp: "distinct (map pk (users example_db))"
    by (simp add: example_db_def example_author_def example_staff_def example_admin_def)
  have mem: "example_author \<in> set (users example_db)"
    by (simp add: example_db_def)
  have payload: "vd_email hostile_patch = Some ''eve@example.com''"
    "vd_role hostile_patch = Some ''admin''"
    by (simp_all add: hostile_patch_def ADMIN_def)
  have run: "UserViewSet_me Some \<lparr>http_method = ''PATCH'', user = Authenticated example_author\<rparr>
        hostile_patch example_db
       = (Inr (Serialized (example_author\<lparr>bio := ''hello''\<rparr>)),
          example_db\<lparr>users := [example_author\<lparr>bio := ''hello''\<rparr>, example_staff, example_admin]\<rparr>)"
    by (simp add: UserViewSet_me_def Let_def User_save_def setattrs_def save_kwargs_def
        hostile_patch_def example_db_def example_author_def example_staff_def example_admin_def)
  note kept = me_keeps_email_and_role [OF dp mem run]
  note emails = kept [THEN conjunct1]
    and roles = kept [THEN conjunct2, THEN conjunct1]
    and staff = kept [THEN conjunct2, THEN conjunct2, THEN conjunct2, THEN conjunct2,
                      THEN conjunct2, THEN conjunct1]
  show ?thesis by (intro conjI; fact)
qed

section \<open>Confirmation codes\<close>

text \<open>
  A second request for an email that has a row already: unless the fresh code equals
  the stored one, no row matches the lookup, the creation violates the unique constraint
  on the email, and the view raises \<open>IntegrityError\<close> with the store unchanged.
\<close>

lemma reissue_raises:
  assumes "distinct (map email (users d))" "u \<in> set (users d)" "email u = em"
    "confirmation_code u \<noteq> code" "is_valid em"
  shows "ObtainingConfirmationCodeView_post is_valid code mail_ok d em = (Inl IntegrityError, d)"
proof -
  have "\<forall>y \<in> set (users d). email y = em \<longrightarrow> y = u"
    using assms(1,2,3) by (metis distinct_map inj_onD)
  then have none: "filter (\<lambda>x. email x = em \<and> username x = em \<and> confirmation_code x = code
                        \<and> is_active x = False) (users d) = []"
    using assms(4) by (auto simp add: filter_empty_conv)
  have dup: "list_ex (\<lambda>x. email x = em \<or> username x = em) (users d)"
    using assms(2,3) by (auto simp add: list_ex_iff)
  show ?thesis
    using none dup assms(5)
    by (simp add: ObtainingConfirmationCodeView_post_def User_get_or_create_def User_get4_def
        User_create_def)
qed

text \<open>
  Claim C3, at the input where the code departs from it. A user is pending with the code
  \<open>old-code\<close>; a second request for the same email draws \<open>new-code\<close>. The view raises
  \<open>IntegrityError\<close>, the stored code is still \<open>old-code\<close>, the exchange accepts
  \<open>old-code\<close> and rejects \<open>new-code\<close>.
\<close>

theorem reissue_fails_old_code_stays:
  "ObtainingConfirmationCodeView_post (\<lambda>em. True) ''new-code'' True example_db ''ann@example.com''
     = (Inl IntegrityError, example_db)
   \<and> map confirmation_code (filter (\<lambda>u. email u = ''ann@example.com'') (users example_db))
     = [''old-code'']
   \<and> fst (TokenView_post TokenSerializer_is_valid example_db ''ann@example.com'' ''old-code'')
     = Inr [(''token'', AccessToken 1)]
   \<and> fst (TokenView_post TokenSerializer_is_valid example_db ''ann@example.com'' ''new-code'')
     = Inl SerializerError"
  by (simp add: ObtainingConfirmationCodeView_post_def User_get_or_create_def User_get4_def
        User_create_def TokenView_post_def TokenSerializer_is_valid_def get_object_or_404_email_def
        User_save_def for_user_def
        example_db_def example_author_def example_staff_def example_admin_def)

section \<open>The token exchange\<close>

text \<open>
  Whatever the serializer's validation is, a successful exchange answers with an access
  token alone, and the store after the call is the store before it.
\<close>

lemma TokenView_post_access_only:
  "fst (TokenView_post is_valid d em code) = Inr resp \<Longrightarrow> \<exists>k. resp = [(''token'', AccessToken k)]"
  by (auto simp add: TokenView_post_def for_user_def split: if_splits sum.splits)

lemma get_object_or_404_email_member:
  "get_object_or_404_email d em = Inr u \<Longrightarrow> u \<in> set (users d) \<and> email u = em"
proof -
  assume g: "get_object_or_404_email d em = Inr u"
  then have "filter (\<lambda>x. email x = em) (users d) = [u]"
    by (auto simp add: get_object_or_404_email_def split: list.splits)
  then have "u \<in> set (filter (\<lambda>x. email x = em) (users d))" by simp
  then show ?thesis by simp
qed

lemma TokenView_post_store_unchanged:
  assumes "distinct (map pk (users d))"
  shows "snd (TokenView_post is_valid d em code) = d"
proof (cases "is_valid d em code")
  case False
  then show ?thesis by (simp add: TokenView_post_def)
next
  case valid: True
  show ?thesis
  proof (cases "get_object_or_404_email d em")
    case (Inl e)
    with valid show ?thesis by (simp add: TokenView_post_def)
  next
    case (Inr u)
    then have mem: "u \<in> set (users d)"
      by (simp add: get_object_or_404_email_member)
    show ?thesis
    proof (cases "User_save u d")
      case (Inl e)
      with valid Inr show ?thesis by (simp add: TokenView_post_def)
    next
      case saved: (Inr d')
      have "users d' = map (\<lambda>x. if x = u then u else x) (users d)"
        using User_save_users [OF saved mem refl assms] .
      then have "users d' = users d"
        by (simp cong: map_cong)
      moreover have "d' = d\<lparr>users := users d'\<rparr>"
        using saved by (auto simp add: User_save_def split: if_splits)
      ultimately have "d' = d" by simp
      with valid Inr saved show ?thesis by (simp add: TokenView_post_def)
    qed
  qed
qed

text \<open>
  Claim C4, as stated, fails: the presented code matches the stored one, the response
  holds the access token and no refresh token, and the user is still inactive in the
  store returned.
\<close>

theorem exchange_neither_activates_nor_returns_refresh:
  "email example_author = ''ann@example.com'' \<and> confirmation_code example_author = ''old-code''
   \<and> TokenView_post TokenSerializer_is_valid example_db ''ann@example.com'' ''old-code''
       = (Inr [(''token'', AccessToken 1)], example_db)
   \<and> map is_active (filter (\<lambda>u. email u = ''ann@example.com'') (users example_db)) = [False]"
  by (simp add: TokenView_post_def TokenSerializer_is_valid_def get_object_or_404_email_def
        User_save_def for_user_def
        example_db_def example_author_def example_staff_def example_admin_def)

text \<open>
  Claim C4, as amended. In a store whose emails and user names are unique: when the
  presented code is the stored code of the user with the presented email, the exchange
  answers with one access token bound to that user's key; when no user with that email
  has that code, the request is rejected, no token is issued and the store is unchanged.
\<close>

theorem exchange_token_iff_code_matches:
  assumes "distinct (map email (users d))" and "distinct (map username (users d))"
  shows "(u \<in> set (users d) \<and> email u = em \<and> confirmation_code u = code \<longrightarrow>
            fst (TokenView_post TokenSerializer_is_valid d em code)
              = Inr [(''token'', AccessToken (pk u))])
       \<and> ((\<forall>x \<in> set (users d). email x = em \<longrightarrow> confirmation_code x \<noteq> code) \<longrightarrow>
            TokenView_post TokenSerializer_is_valid d em code = (Inl SerializerError, d))"
proof (intro conjI impI)
  assume h: "u \<in> set (users d) \<and> email u = em \<and> confirmation_code u = code"
  then have valid: "TokenSerializer_is_valid d em code"
    by (auto simp add: TokenSerializer_is_valid_def list_ex_iff)
  have one: "filter (\<lambda>y. email y = em) (users d) = [u]"
    using filter_unique_key [OF assms(1), of u] h by simp
  then have got: "get_object_or_404_email d em = Inr u"
    by (simp add: get_object_or_404_email_def)
  have "\<And>x. x \<in> set (users d) \<Longrightarrow> email x = email u \<or> username x = username u \<Longrightarrow> x = u"
    using assms h by (metis distinct_map inj_onD)
  then have "\<not> list_ex (\<lambda>x. pk x \<noteq> pk u \<and> (email x = email u \<or> username x = username u)) (users d)"
    by (auto simp add: list_ex_iff)
  then obtain d' where "User_save u d = Inr d'"
    by (cases "list_ex (\<lambda>x. pk x = pk u) (users d)") (simp_all add: User_save_def)
  with valid got show "fst (TokenView_post TokenSerializer_is_valid d em code)
              = Inr [(''token'', AccessToken (pk u))]"
    by (simp add: TokenView_post_def for_user_def)
next
  assume "\<forall>x \<in> set (users d). email x = em \<longrightarrow> confirmation_code x \<noteq> code"
  then have "\<not> TokenSerializer_is_valid d em code"
    by (auto simp add: TokenSerializer_is_valid_def list_ex_iff)
  then show "TokenView_post TokenSerializer_is_valid d em code = (Inl SerializerError, d)"
    by (simp add: TokenView_post_def)
qed

theorem exchange_token_iff_code_matches_witness:
  "distinct (map email (users example_db)) \<and> distinct (map username (users example_db))
   \<and> example_author \<in> set (users example_db)
   \<and> email example_author = ''ann@example.com''
   \<and> confirmation_code example_author = ''old-code''
   \<and> fst (TokenView_post TokenSerializer_is_valid example_db ''ann@example.com'' ''old-code'')
       = Inr [(''token'', AccessToken 1)]
   \<and> map confirmation_code (filter (\<lambda>x. email x = ''ann@example.com'') (users example_db))
       = [''old-code'']
   \<and> TokenView_post TokenSerializer_is_valid example_db ''ann@example.com'' ''guess''
       = (Inl SerializerError, example_db)"
proof -
  have de: "distinct (map email (users example_db))"
    by (simp add: example_db_def example_author_def example_staff_def example_admin_def)
  have du: "distinct (map username (users example_db))"
    by (simp add: example_db_def example_author_def example_staff_def example_admin_def)
  have mem: "example_author \<in> set (users example_db)"
    by (simp add: example_db_def)
  have em: "email example_author = ''ann@example.com''"
    and cc: "confirmation_code example_author = ''old-code''"
    and k: "pk example_author = 1"
    by (simp_all add: example_author_def)
  have codes: "map confirmation_code (filter (\<lambda>x. email x = ''ann@example.com'') (users example_db))
       = [''old-code'']"
    by (simp add: example_db_def example_author_def example_staff_def example_admin_def)
  have wrong: "\<forall>x \<in> set (users example_db).
      email x = ''ann@example.com'' \<longrightarrow> confirmation_code x \<noteq> ''guess''"
    by (simp add: example_db_def example_author_def example_staff_def example_admin_def)
  from exchange_token_iff_code_matches [OF de du, of example_author "''ann@example.com''" "''old-code''"]
  have "example_author \<in> set (users example_db) \<and> email example_author = ''ann@example.com''
      \<and> confirmation_code example_author = ''old-code'' \<longrightarrow>
      fst (TokenView_post TokenSerializer_is_valid example_db ''ann@example.com'' ''old-code'')
       = Inr [(''token'', AccessToken (pk example_author))]"
    by (rule conjunct1)
  with mem em cc
  have "fst (TokenView_post TokenSerializer_is_valid example_db ''ann@example.com'' ''old-code'')
       = Inr [(''token'', AccessToken (pk example_author))]"
    by (simp only: simp_thms)
  then have match: "fst (TokenView_post TokenSerializer_is_valid example_db ''ann@example.com'' ''old-code'')
       = Inr [(''token'', AccessToken 1)]"
    by (simp only: k)
  from exchange_token_iff_code_matches [OF de du, of example_author "''ann@example.com''" "''guess''"]
  have "(\<forall>x \<in> set (users example_db).
      email x = ''ann@example.com'' \<longrightarrow> confirmation_code x \<noteq> ''guess'') \<longrightarrow>
      TokenView_post TokenSerializer_is_valid example_db ''ann@example.com'' ''guess''
       = (Inl SerializerError, example_db)"
    by (rule conjunct2)
  then have mismatch: "TokenView_post TokenSerializer_is_valid example_db ''ann@example.com'' ''guess''
       = (Inl SerializerError, example_db)"
    using wrong by (rule mp)
  show ?thesis by (intro conjI; fact)
qed

end
